theory Spec2Isabelle
  imports Main
begin

section \<open>Python values used by rename.py\<close>

text \<open>
  Strings are lists of characters, and a character stands for the Unicode code point of
  the same number, so the model covers the strings whose code points are below 256. On
  these the digit class \<open>\d\<close>, \<open>str.lower\<close>, the case-insensitive comparison of \<open>re\<close> and
  \<open>int\<close> are written out as Python has them. \<open>str.upper\<close> takes three of these
  characters out of that range (U+00B5, U+00DF, U+00FF), so it is a parameter, with the
  rest of the library (see the environment below). Exceptions are values of \<open>error\<close>,
  one constructor for each exception class the program can meet, carrying the message.
  The messages of the program's own \<open>ValueError\<close>s are spelled out; those of exceptions
  that the library raises are shortened.
\<close>

datatype error =
    ValueError string
  | IndexError string
  | TypeError string
  | KeyError string
  | ReError string
  | OSError string
  | RuntimeError string

fun is_ValueError :: "error \<Rightarrow> bool" where
  "is_ValueError (ValueError _) = True"
| "is_ValueError _ = False"

abbreviation BSLASH :: char where "BSLASH \<equiv> CHR 0x5C"
abbreviation LPAREN :: char where "LPAREN \<equiv> CHR 0x28"
abbreviation RPAREN :: char where "RPAREN \<equiv> CHR 0x29"
abbreviation BACKTICK :: char where "BACKTICK \<equiv> CHR 0x60"

definition is_digit :: "char \<Rightarrow> bool" where
  "is_digit c = (48 \<le> (of_char c :: nat) \<and> (of_char c :: nat) \<le> 57)"

definition digit_val :: "char \<Rightarrow> nat" where
  "digit_val c = of_char c - 48"

definition digit_char :: "nat \<Rightarrow> char" where
  "digit_char d = char_of (48 + d)"

text \<open>
  The whitespace that \<open>int\<close> skips around a number: tab, newline, VT, FF, CR and space,
  and the two whitespace characters above 127, U+0085 and U+00A0.
\<close>

definition is_int_space :: "char \<Rightarrow> bool" where
  "is_int_space c = ((of_char c :: nat) \<in> {9, 10, 11, 12, 13, 32, 133, 160})"

text \<open>
  \<open>str.lower\<close>: the letters A-Z and the letters U+00C0-U+00DE (all but the sign U+00D7)
  move up by 32; every other character below 256 is its own lower case.
\<close>

definition lower_char :: "char \<Rightarrow> char" where
  "lower_char c =
     (if (65 \<le> (of_char c :: nat) \<and> (of_char c :: nat) \<le> 90)
         \<or> (192 \<le> (of_char c :: nat) \<and> (of_char c :: nat) \<le> 222 \<and> (of_char c :: nat) \<noteq> 215)
      then char_of (of_char c + 32 :: nat) else c)"

definition py_lower :: "string \<Rightarrow> string" where
  "py_lower s = map lower_char s"

text \<open>\<open>sep.join(xs)\<close>.\<close>

fun py_join :: "string \<Rightarrow> string list \<Rightarrow> string" where
  "py_join sep [] = []"
| "py_join sep [x] = x"
| "py_join sep (x # y # ys) = x @ sep @ py_join sep (y # ys)"

text \<open>\<open>"%d" % i\<close>: the decimal digits, with a leading minus sign for a negative number.\<close>

fun dec_nat :: "nat \<Rightarrow> string" where
  "dec_nat n = (if n < 10 then [digit_char n] else dec_nat (n div 10) @ [digit_char (n mod 10)])"

declare dec_nat.simps [simp del]

definition fmt_d :: "int \<Rightarrow> string" where
  "fmt_d i = (if i < 0 then CHR ''-'' # dec_nat (nat (- i)) else dec_nat (nat i))"

text \<open>
  \<open>int(s)\<close> on a string, base 10: surrounding whitespace is skipped, one sign is
  allowed, then digits, where single underscores may separate digits. A number of more
  than \<open>sys.get_int_max_str_digits()\<close> digits is refused (leading zeros count,
  underscores do not); the limit is the first argument, 0 for no limit. \<open>None\<close> stands
  for the \<open>ValueError\<close> that \<open>int\<close> raises.
\<close>

definition int_strip :: "string \<Rightarrow> string" where
  "int_strip s = rev (dropWhile is_int_space (rev (dropWhile is_int_space s)))"

fun parse_digits :: "nat \<Rightarrow> string \<Rightarrow> nat option" where
  "parse_digits acc [] = Some acc"
| "parse_digits acc (c # cs) =
     (if is_digit c then parse_digits (acc * 10 + digit_val c) cs
      else if c = CHR ''_'' then
        (case cs of [] \<Rightarrow> None | d # _ \<Rightarrow> if is_digit d then parse_digits acc cs else None)
      else None)"

definition parse_unsigned :: "nat \<Rightarrow> string \<Rightarrow> nat option" where
  "parse_unsigned lim body =
     (case body of
        [] \<Rightarrow> None
      | c # _ \<Rightarrow>
          if is_digit c \<and> (lim = 0 \<or> length (filter is_digit body) \<le> lim)
          then parse_digits 0 body else None)"

definition py_int :: "nat \<Rightarrow> string \<Rightarrow> int option" where
  "py_int lim s =
     (case int_strip s of
        [] \<Rightarrow> None
      | c # cs \<Rightarrow>
          if c = CHR ''-'' then map_option (\<lambda>n. - int n) (parse_unsigned lim cs)
          else if c = CHR ''+'' then map_option int (parse_unsigned lim cs)
          else map_option int (parse_unsigned lim (c # cs)))"

text \<open>\<open>s.startswith(p)\<close> and \<open>s.replace(old, new)\<close> (all non-overlapping occurrences, left to right).\<close>

fun starts_with :: "string \<Rightarrow> string \<Rightarrow> bool" where
  "starts_with [] s = True"
| "starts_with (p # ps) [] = False"
| "starts_with (p # ps) (c # cs) = (p = c \<and> starts_with ps cs)"

fun replace_nonempty :: "string \<Rightarrow> string \<Rightarrow> string \<Rightarrow> string" where
  "replace_nonempty old new [] = []"
| "replace_nonempty old new (c # cs) =
     (if starts_with old (c # cs) then new @ replace_nonempty old new (drop (length old - 1) cs)
      else c # replace_nonempty old new cs)"

definition py_replace :: "string \<Rightarrow> string \<Rightarrow> string \<Rightarrow> string" where
  "py_replace old new s =
     (if old = [] then new @ concat (map (\<lambda>c. c # new) s) else replace_nonempty old new s)"

section \<open>Match objects and the two template scanners\<close>

text \<open>
  A match object of \<open>re\<close>: the text of the whole match (group 0) and the capture groups
  1..n, each \<open>None\<close> when the group did not take part in the match.
\<close>

record py_match =
  whole :: string
  captures :: "string option list"

definition group :: "py_match \<Rightarrow> int \<Rightarrow> error + string option" where
  "group m n =
     (if n = 0 then Inr (Some (whole m))
      else if 1 \<le> n \<and> n \<le> int (length (captures m)) then Inr (captures m ! (nat n - 1))
      else Inl (IndexError ''no such group''))"

text \<open>
  \<open>MATCH_REGEX.findall(target)\<close> for \<open>MATCH_REGEX = (\\)(\d+)\<close>: every backslash that
  is followed by digits, with the longest run of digits, scanning left to right.
\<close>

function findall_MATCH_REGEX :: "string \<Rightarrow> (string \<times> string) list" where
  "findall_MATCH_REGEX [] = []"
| "findall_MATCH_REGEX (c # cs) =
     (if c = BSLASH \<and> takeWhile is_digit cs \<noteq> []
      then ([BSLASH], takeWhile is_digit cs) # findall_MATCH_REGEX (dropWhile is_digit cs)
      else findall_MATCH_REGEX cs)"
  by pat_completeness auto
termination
  by (relation "measure length") (auto simp: length_dropWhile_le less_Suc_eq_le)

text \<open>
  \<open>MATCH_REGEX_BRACKETS.findall(target)\<close> for \<open>MATCH_REGEX_BRACKETS = (\\\()([^)]+)(\))\<close>:
  a backslash and an opening parenthesis, one or more characters other than the closing
  parenthesis, and the closing parenthesis.
\<close>

function findall_MATCH_REGEX_BRACKETS :: "string \<Rightarrow> (string \<times> string \<times> string) list" where
  "findall_MATCH_REGEX_BRACKETS [] = []"
| "findall_MATCH_REGEX_BRACKETS [c] = []"
| "findall_MATCH_REGEX_BRACKETS (c # d # cs) =
     (if c = BSLASH \<and> d = LPAREN \<and> takeWhile (\<lambda>x. x \<noteq> RPAREN) cs \<noteq> []
         \<and> dropWhile (\<lambda>x. x \<noteq> RPAREN) cs \<noteq> []
      then ([BSLASH, LPAREN], takeWhile (\<lambda>x. x \<noteq> RPAREN) cs, [RPAREN])
             # findall_MATCH_REGEX_BRACKETS (tl (dropWhile (\<lambda>x. x \<noteq> RPAREN) cs))
      else findall_MATCH_REGEX_BRACKETS (d # cs))"
  by pat_completeness auto
termination
proof (relation "measure length")
  show "wf (measure length)" by simp
next
  fix c d :: char and cs :: string
  have "length (tl (dropWhile (\<lambda>x. x \<noteq> RPAREN) cs)) \<le> length cs"
    using length_dropWhile_le [of "\<lambda>x. x \<noteq> RPAREN" cs] by simp
  then show "(tl (dropWhile (\<lambda>x. x \<noteq> RPAREN) cs), c # d # cs) \<in> measure length"
    by simp
next
  fix c d :: char and cs :: string
  show "(d # cs, c # d # cs) \<in> measure length" by simp
qed

section \<open>The Renamer object\<close>

text \<open>
  \<open>index_digits\<close> is an \<open>int\<close> or a \<open>str\<close> (the command line passes the string as typed,
  \<open>"auto"\<close> by default). \<open>targets\<close> is a dictionary from the destination name to the list
  of its sources; Python dictionaries keep insertion order, so it is an association list.
\<close>

datatype index_digits_value = IntDigits int | StrDigits string

type_synonym targets_dict = "(string \<times> string list) list"

record renamer =
  case_insensitive :: bool
  copy :: bool
  xform :: string
  test :: bool
  quiet :: bool
  index_first :: int
  index_step :: int
  index_digits :: index_digits_value
  index_pad_with :: string
  targets :: targets_dict

text \<open>\<open>Renamer.__init__\<close> with its keyword defaults: the plan \<open>targets\<close> starts empty.\<close>

definition Renamer_init :: renamer where
  "Renamer_init =
     \<lparr>case_insensitive = False, copy = False, xform = [], test = False, quiet = False,
      index_first = 1, index_step = 1, index_digits = StrDigits ''auto'',
      index_pad_with = ''0'', targets = []\<rparr>"

section \<open>The outside world: \<open>re\<close>, \<open>math\<close>, \<open>os\<close> and \<open>shutil\<close>\<close>

text \<open>
  The four calls that change the file system, and the lines the program prints. The
  text of a printed line is not modelled, only which line it is and what it names.
\<close>

datatype fs_op =
    OsRename string string
  | ShutilCopy string string
  | ShutilCopymode string string
  | ShutilCopystat string string

datatype message =
    SepWarning string
  | UnchangedNote string
  | WouldCopy string string
  | WouldRename string string
  | ExcLine error

text \<open>
  The library and the operating system are parameters, over any type \<open>'s\<close> of file-system
  states: \<open>re_compile pattern ignorecase\<close> is \<open>re.compile\<close> followed by \<open>.search\<close>,
  \<open>math_log10 x\<close> is \<open>int(math.log(x, 10))\<close>, \<open>int_max_str_digits\<close> is the limit of
  \<open>int\<close> on the digits of a string (0 when there is none), \<open>str_upper\<close> is
  \<open>str.upper\<close>, \<open>st_ino\<close> is the inode that \<open>os.stat\<close> reports (\<open>None\<close> when \<open>os.stat\<close>
  raises), and \<open>fs_apply\<close> performs one mutating call, which may raise.
\<close>

record 's environment =
  re_compile :: "string \<Rightarrow> bool \<Rightarrow> error + (string \<Rightarrow> py_match option)"
  math_log10 :: "int \<Rightarrow> int"
  int_max_str_digits :: nat
  str_upper :: "string \<Rightarrow> string"
  os_sep :: string
  os_listdir :: "'s \<Rightarrow> error + string list"
  st_ino :: "'s \<Rightarrow> string \<Rightarrow> nat option"
  abspath :: "'s \<Rightarrow> string \<Rightarrow> string"
  fs_apply :: "fs_op \<Rightarrow> 's \<Rightarrow> error option \<times> 's"

text \<open>
  What a run can change outside the Renamer: the file system, with the log of the
  mutating calls made on it, and the two output streams.
\<close>

record 's world =
  fs :: 's
  mutations :: "fs_op list"
  out_stream :: "message list"
  err_stream :: "message list"

text \<open>\<open>print(..., file=stdout)\<close> and \<open>print(..., file=stderr)\<close>; both go to \<open>DEVNULL\<close> when quiet.\<close>

definition print_out :: "renamer \<Rightarrow> message \<Rightarrow> 's world \<Rightarrow> 's world" where
  "print_out self msg w = (if quiet self then w else w\<lparr>out_stream := out_stream w @ [msg]\<rparr>)"

definition print_err :: "renamer \<Rightarrow> message \<Rightarrow> 's world \<Rightarrow> 's world" where
  "print_err self msg w = (if quiet self then w else w\<lparr>err_stream := err_stream w @ [msg]\<rparr>)"

definition mutate :: "'s environment \<Rightarrow> fs_op \<Rightarrow> 's world \<Rightarrow> error option \<times> 's world" where
  "mutate env op w =
     (case fs_apply env op (fs w) of
        (r, s') \<Rightarrow> (r, w\<lparr>fs := s', mutations := mutations w @ [op]\<rparr>))"

text \<open>\<open>os.path.exists\<close> is true when \<open>os.stat\<close> succeeds.\<close>

definition path_exists :: "'s environment \<Rightarrow> 's \<Rightarrow> string \<Rightarrow> bool" where
  "path_exists env s p = (st_ino env s p \<noteq> None)"

text \<open>\<open>is_same_file\<close>; \<open>and\<close> does not evaluate the two \<open>os.stat\<close> calls when the paths differ.\<close>

definition is_same_file :: "'s environment \<Rightarrow> 's \<Rightarrow> string \<Rightarrow> string \<Rightarrow> error + bool" where
  "is_same_file env s file1 file2 =
     (if py_lower (abspath env s file1) = py_lower (abspath env s file2) then
        (case st_ino env s file1 of
           None \<Rightarrow> Inl (OSError file1)
         | Some i1 \<Rightarrow>
             (case st_ino env s file2 of
                None \<Rightarrow> Inl (OSError file2)
              | Some i2 \<Rightarrow> Inr (i1 = i2)))
      else Inr False)"

section \<open>Template expansion: \<open>Renamer._apply_match\<close>\<close>

text \<open>\<open>TRANSFORM[self.xform]\<close>: a key other than the three of the table raises \<open>KeyError\<close>.\<close>

definition TRANSFORM :: "'s environment \<Rightarrow> string \<Rightarrow> error + (string \<Rightarrow> string)" where
  "TRANSFORM env key =
     (if key = [] then Inr (\<lambda>x. x)
      else if key = ''lower'' then Inr py_lower
      else if key = ''upper'' then Inr (str_upper env)
      else Inl (KeyError key))"

definition apply_TRANSFORM :: "'s environment \<Rightarrow> renamer \<Rightarrow> string \<Rightarrow> error + string" where
  "apply_TRANSFORM env self move_to =
     (case TRANSFORM env (xform self) of Inl e \<Rightarrow> Inl e | Inr f \<Rightarrow> Inr (f move_to))"

text \<open>\<open>Renamer.index\<close>.\<close>

definition index :: "renamer \<Rightarrow> int \<Rightarrow> int" where
  "index self number = index_first self + (number * index_step self)"

text \<open>
  The digit width of \<open>_apply_match\<close>. \<open>math.log\<close> is floating point:
  \<open>math_log10 env\<close> stands for \<open>int(math.log(x, 10))\<close> on \<open>x \<ge> 1\<close>; on \<open>x \<le> 0\<close> Python
  raises \<open>ValueError("math domain error")\<close>. A fixed width goes through \<open>int(...)\<close>.
\<close>

definition digit_width :: "'s environment \<Rightarrow> renamer \<Rightarrow> int \<Rightarrow> error + int" where
  "digit_width env self max_indexes =
     (if index_digits self = StrDigits ''auto'' then
        (if index self max_indexes \<le> 0 then Inl (ValueError ''math domain error'')
         else Inr (math_log10 env (index self max_indexes) + 1))
      else
        (case index_digits self of
           IntDigits n \<Rightarrow> Inr n
         | StrDigits s \<Rightarrow>
             (case py_int (int_max_str_digits env) s of
                None \<Rightarrow> Inl (ValueError (''invalid literal for int() with base 10: '' @ s))
              | Some n \<Rightarrow> Inr n)))"

text \<open>The replacement for \<open>\(index)\<close>: the lines of \<open>_apply_match\<close> after the check of \<open>ref\<close>.\<close>

definition index_replacement :: "'s environment \<Rightarrow> renamer \<Rightarrow> int \<Rightarrow> int \<Rightarrow> error + string" where
  "index_replacement env self idx max_indexes =
     (let replacement = fmt_d (index self idx) in
      case digit_width env self max_indexes of
        Inl e \<Rightarrow> Inl e
      | Inr digits \<Rightarrow>
          (let pad_count = digits - int (length replacement) in
           if pad_count > 0
           then Inr (concat (replicate (nat pad_count) (index_pad_with self)) @ replacement)
           else Inr replacement))"

text \<open>\<open>move_to.replace(old, g)\<close> where \<open>g\<close> is what \<open>match.group\<close> returned: \<open>None\<close> is a \<open>TypeError\<close>.\<close>

definition replace_with_group :: "string \<Rightarrow> string option \<Rightarrow> string \<Rightarrow> error + string" where
  "replace_with_group old g move_to =
     (case g of
        None \<Rightarrow> Inl (TypeError ''replace() argument 2 must be str, not None'')
      | Some new \<Rightarrow> Inr (py_replace old new move_to))"

text \<open>The first loop of \<open>_apply_match\<close>, over \<open>MATCH_REGEX.findall(target)\<close>.\<close>

fun backref_loop ::
  "'s environment \<Rightarrow> py_match \<Rightarrow> (string \<times> string) list \<Rightarrow> string \<Rightarrow> error + string" where
  "backref_loop env m [] move_to = Inr move_to"
| "backref_loop env m ((prefix, num) # rest) move_to =
     (case py_int (int_max_str_digits env) num of
        None \<Rightarrow> Inl (ValueError (''invalid literal for int() with base 10: '' @ num))
      | Some n \<Rightarrow>
          (case group m n of
             Inl e \<Rightarrow> Inl e
           | Inr g \<Rightarrow>
               (case replace_with_group (prefix @ num) g move_to of
                  Inl e \<Rightarrow> Inl e
                | Inr move_to' \<Rightarrow> backref_loop env m rest move_to')))"

text \<open>The \<open>ValueError\<close> of the second loop, with the text of its format string.\<close>

definition unknown_reference_error :: "string \<Rightarrow> error" where
  "unknown_reference_error ref =
     ValueError (''Unknown special reference: '' @ [BACKTICK] @ ref @ [BACKTICK])"

text \<open>The replacement computed for one \<open>\(ref)\<close>: the \<open>try\<close> statement of the second loop.\<close>

definition bracket_replacement ::
  "'s environment \<Rightarrow> renamer \<Rightarrow> py_match \<Rightarrow> int \<Rightarrow> int \<Rightarrow> string \<Rightarrow> error + string option" where
  "bracket_replacement env self m idx max_indexes ref =
     (case py_int (int_max_str_digits env) ref of
        Some n \<Rightarrow> group m n
      | None \<Rightarrow>
          if py_lower ref \<noteq> ''index''
          then Inl (unknown_reference_error ref)
          else map_sum (\<lambda>e. e) Some (index_replacement env self idx max_indexes))"

fun bracket_loop ::
  "'s environment \<Rightarrow> renamer \<Rightarrow> py_match \<Rightarrow> int \<Rightarrow> int \<Rightarrow> (string \<times> string \<times> string) list
     \<Rightarrow> string \<Rightarrow> error + string" where
  "bracket_loop env self m idx max_indexes [] move_to = Inr move_to"
| "bracket_loop env self m idx max_indexes ((prefix, ref, suffix) # rest) move_to =
     (case bracket_replacement env self m idx max_indexes ref of
        Inl e \<Rightarrow> Inl e
      | Inr g \<Rightarrow>
          (case replace_with_group (prefix @ ref @ suffix) g move_to of
             Inl e \<Rightarrow> Inl e
           | Inr move_to' \<Rightarrow> bracket_loop env self m idx max_indexes rest move_to'))"

text \<open>\<open>Renamer._apply_match\<close>.\<close>

definition apply_match ::
  "'s environment \<Rightarrow> renamer \<Rightarrow> py_match \<Rightarrow> string \<Rightarrow> int \<Rightarrow> int \<Rightarrow> error + string" where
  "apply_match env self m target idx max_indexes =
     (case backref_loop env m (findall_MATCH_REGEX target) target of
        Inl e \<Rightarrow> Inl e
      | Inr move_to \<Rightarrow>
          (case bracket_loop env self m idx max_indexes
                  (findall_MATCH_REGEX_BRACKETS target) move_to of
             Inl e \<Rightarrow> Inl e
           | Inr move_to' \<Rightarrow> apply_TRANSFORM env self move_to'))"

section \<open>Simple mode: \<open>re.escape\<close>, \<open>re.compile\<close> and \<open>Pattern.sub\<close>\<close>

text \<open>
  \<open>sub.sub(substring_to, text)\<close> first turns the replacement string into a template
  (CPython's \<open>parse_template\<close>) whenever it holds a backslash: escapes such as \<open>\n\<close> become
  the character they name, \<open>\g<0>\<close> is the text of the match, three octal digits are a
  character code, and a reference to a group the pattern does not have, an unknown escape
  of an ASCII letter or a backslash at the very end raise \<open>re.error\<close>. The pattern here
  is \<open>re.escape(substring_from)\<close>, which has no groups and no group names. The tokenizer
  reads one token ahead, so a lone final backslash is reported one token early. The
  messages of \<open>re.error\<close> are not modelled.
\<close>

datatype tpart = Lit string | WholeMatch

definition tmpl_cons :: "tpart \<Rightarrow> error + tpart list \<Rightarrow> error + tpart list" where
  "tmpl_cons p r = (case r of Inl e \<Rightarrow> Inl e | Inr ps \<Rightarrow> Inr (p # ps))"

definition is_octdigit :: "char \<Rightarrow> bool" where
  "is_octdigit c = (48 \<le> (of_char c :: nat) \<and> (of_char c :: nat) \<le> 55)"

definition is_ascii_letter :: "char \<Rightarrow> bool" where
  "is_ascii_letter c =
     ((65 \<le> (of_char c :: nat) \<and> (of_char c :: nat) \<le> 90)
      \<or> (97 \<le> (of_char c :: nat) \<and> (of_char c :: nat) \<le> 122))"

text \<open>\<open>str.isidentifier\<close> on ASCII text.\<close>

definition is_identifier :: "string \<Rightarrow> bool" where
  "is_identifier s =
     (case s of
        [] \<Rightarrow> False
      | c # cs \<Rightarrow>
          (is_ascii_letter c \<or> c = CHR ''_'')
          \<and> list_all (\<lambda>x. is_ascii_letter x \<or> is_digit x \<or> x = CHR ''_'') cs)"

text \<open>The table \<open>ESCAPES\<close> of the parser: \<open>\a \b \f \n \r \t \v \\\<close>.\<close>

definition ESCAPES :: "char \<Rightarrow> char option" where
  "ESCAPES c =
     (if c = CHR ''a'' then Some (CHR 0x07)
      else if c = CHR ''b'' then Some (CHR 0x08)
      else if c = CHR ''f'' then Some (CHR 0x0C)
      else if c = CHR ''n'' then Some (CHR 0x0A)
      else if c = CHR ''r'' then Some (CHR 0x0D)
      else if c = CHR ''t'' then Some (CHR 0x09)
      else if c = CHR ''v'' then Some (CHR 0x0B)
      else if c = BSLASH then Some BSLASH
      else None)"

definition oct_val :: "string \<Rightarrow> nat" where
  "oct_val ds = foldl (\<lambda>acc c. acc * 8 + digit_val c) 0 ds"

text \<open>What \<open>\g<name>\<close> refers to when the pattern has no groups.\<close>

definition group_name_part :: "nat \<Rightarrow> string \<Rightarrow> error + tpart" where
  "group_name_part lim name =
     (if is_identifier name then Inl (IndexError (''unknown group name '' @ name))
      else if py_int lim name = Some 0 then Inr WholeMatch
      else Inl (ReError ''bad template''))"

text \<open>
  The first argument is the digit limit of \<open>int\<close>. The second is \<open>None\<close> between tokens
  and \<open>Some name\<close> while the name after \<open>\g<\<close> is being read (\<open>getuntil\<close>).
\<close>

fun parse_template :: "nat \<Rightarrow> string option \<Rightarrow> string \<Rightarrow> error + tpart list" where
  "parse_template lim None [] = Inr []"
| "parse_template lim None [c] = (if c = BSLASH then Inl (ReError ''bad template'') else Inr [Lit [c]])"
| "parse_template lim None (c # d # cs) =
     (if c \<noteq> BSLASH then
        (if d # cs = [BSLASH] then Inl (ReError ''bad template'')
         else tmpl_cons (Lit [c]) (parse_template lim None (d # cs)))
      else if cs = [BSLASH] then Inl (ReError ''bad template'')
      else if d = CHR ''g'' then
        (case cs of
           [] \<Rightarrow> Inl (ReError ''bad template'')
         | x # r \<Rightarrow>
             if x = CHR ''<'' \<and> r \<noteq> [BSLASH] then parse_template lim (Some []) r
             else Inl (ReError ''bad template''))
      else if d = CHR ''0'' then
        (let k = length (takeWhile is_octdigit (take 2 cs)) in
         if drop k cs = [BSLASH] then Inl (ReError ''bad template'')
         else tmpl_cons (Lit [char_of (oct_val (take k cs) mod 256)])
                (parse_template lim None (drop k cs)))
      else if is_digit d then
        (if is_octdigit d \<and> length (takeWhile is_octdigit (take 2 cs)) = 2
            \<and> oct_val (d # take 2 cs) \<le> 255 \<and> drop 2 cs \<noteq> [BSLASH]
         then tmpl_cons (Lit [char_of (oct_val (d # take 2 cs))])
                (parse_template lim None (drop 2 cs))
         else Inl (ReError ''bad template''))
      else
        (case ESCAPES d of
           Some e \<Rightarrow> tmpl_cons (Lit [e]) (parse_template lim None cs)
         | None \<Rightarrow>
             if is_ascii_letter d then Inl (ReError ''bad template'')
             else tmpl_cons (Lit [c, d]) (parse_template lim None cs)))"
| "parse_template lim (Some name) [] = Inl (ReError ''bad template'')"
| "parse_template lim (Some name) [c] =
     (if c = CHR ''>'' \<and> name \<noteq> []
      then (case group_name_part lim name of Inl e \<Rightarrow> Inl e | Inr p \<Rightarrow> Inr [p])
      else Inl (ReError ''bad template''))"
| "parse_template lim (Some name) (c # d # cs) =
     (if c = BSLASH then parse_template lim (Some (name @ [c, d])) cs
      else if c = CHR ''>'' then
        (if name = [] \<or> d # cs = [BSLASH] then Inl (ReError ''bad template'')
         else (case group_name_part lim name of
                 Inl e \<Rightarrow> Inl e
               | Inr p \<Rightarrow> tmpl_cons p (parse_template lim None (d # cs))))
      else parse_template lim (Some (name @ [c])) (d # cs))"

definition expand_template :: "tpart list \<Rightarrow> string \<Rightarrow> string" where
  "expand_template parts matched =
     concat (map (\<lambda>p. case p of Lit s \<Rightarrow> s | WholeMatch \<Rightarrow> matched) parts)"

text \<open>
  A pattern that is an escaped literal matches exactly that text, letter case ignored
  under \<open>re.IGNORECASE\<close>. \<open>sub\<close> replaces the non-overlapping matches from the left; the
  empty pattern matches before every character and at the end.
\<close>

definition literal_match_at :: "bool \<Rightarrow> string \<Rightarrow> string \<Rightarrow> bool" where
  "literal_match_at ignorecase pat s =
     (if ignorecase then starts_with (py_lower pat) (py_lower s) else starts_with pat s)"

fun sub_nonempty :: "bool \<Rightarrow> string \<Rightarrow> tpart list \<Rightarrow> string \<Rightarrow> string" where
  "sub_nonempty ic pat parts [] = []"
| "sub_nonempty ic pat parts (c # cs) =
     (if literal_match_at ic pat (c # cs)
      then expand_template parts (take (length pat) (c # cs))
             @ sub_nonempty ic pat parts (drop (length pat - 1) cs)
      else c # sub_nonempty ic pat parts cs)"

definition literal_sub :: "nat \<Rightarrow> bool \<Rightarrow> string \<Rightarrow> string \<Rightarrow> string \<Rightarrow> error + string" where
  "literal_sub lim ic pat repl text =
     (case parse_template lim None repl of
        Inl e \<Rightarrow> Inl e
      | Inr parts \<Rightarrow>
          if pat = []
          then Inr (expand_template parts [] @ concat (map (\<lambda>c. c # expand_template parts []) text))
          else Inr (sub_nonempty ic pat parts text))"

text \<open>\<open>Renamer._apply_replace\<close>.\<close>

definition apply_replace ::
  "'s environment \<Rightarrow> renamer \<Rightarrow> py_match \<Rightarrow> string \<Rightarrow> string \<Rightarrow> error + string" where
  "apply_replace env self m substring_from substring_to =
     (case literal_sub (int_max_str_digits env) (case_insensitive self) substring_from
             substring_to (whole m) of
        Inl e \<Rightarrow> Inl e
      | Inr move_to \<Rightarrow> apply_TRANSFORM env self move_to)"

section \<open>\<open>Renamer._rename\<close>\<close>

text \<open>\<open>sep in value\<close> on strings.\<close>

fun py_contains :: "string \<Rightarrow> string \<Rightarrow> bool" where
  "py_contains sub [] = (sub = [])"
| "py_contains sub (c # cs) = (starts_with sub (c # cs) \<or> py_contains sub cs)"

text \<open>The loop over the five argument names that warns about \<open>os.sep\<close>.\<close>

fun sep_warnings ::
  "'s environment \<Rightarrow> renamer \<Rightarrow> (string \<times> string option) list \<Rightarrow> 's world \<Rightarrow> 's world" where
  "sep_warnings env self [] w = w"
| "sep_warnings env self ((name, v) # rest) w =
     (case v of
        None \<Rightarrow> sep_warnings env self rest w
      | Some s \<Rightarrow>
          if s \<noteq> [] \<and> py_contains (os_sep env) s
          then sep_warnings env self rest (print_err self (SepWarning name) w)
          else sep_warnings env self rest w)"

text \<open>\<open>self.targets.setdefault(move_to, []).append(entry)\<close>.\<close>

fun setdefault_append :: "targets_dict \<Rightarrow> string \<Rightarrow> string \<Rightarrow> targets_dict" where
  "setdefault_append [] move_to entry = [(move_to, [entry])]"
| "setdefault_append ((k, vs) # rest) move_to entry =
     (if k = move_to then (k, vs @ [entry]) # rest
      else (k, vs) # setdefault_append rest move_to entry)"

text \<open>The destination of one matched entry: the body of the scanning loop after the match.\<close>

definition expand_entry ::
  "'s environment \<Rightarrow> renamer \<Rightarrow> py_match \<Rightarrow> string option \<Rightarrow> string option \<Rightarrow> string option
     \<Rightarrow> nat \<Rightarrow> nat \<Rightarrow> error + string" where
  "expand_entry env self m target substring_from substring_to idx file_count =
     (case target of
        Some t \<Rightarrow> apply_match env self m t (int idx) (int file_count)
      | None \<Rightarrow>
          (case (substring_from, substring_to) of
             (Some f, Some t) \<Rightarrow> apply_replace env self m f t
           | _ \<Rightarrow> Inl (RuntimeError ''Invalid method state'')))"

text \<open>
  \<open>for index, entry in enumerate(files)\<close>: the plan is updated entry by entry, and what was
  added before an exception stays in \<open>self.targets\<close>.
\<close>

fun scan_loop ::
  "'s environment \<Rightarrow> renamer \<Rightarrow> (string \<Rightarrow> py_match option) \<Rightarrow> string option \<Rightarrow> string option
     \<Rightarrow> string option \<Rightarrow> nat \<Rightarrow> nat \<Rightarrow> string list \<Rightarrow> targets_dict
     \<Rightarrow> error option \<times> targets_dict" where
  "scan_loop env self r target sfrom sto file_count idx [] tg = (None, tg)"
| "scan_loop env self r target sfrom sto file_count idx (entry # rest) tg =
     (case r entry of
        None \<Rightarrow> scan_loop env self r target sfrom sto file_count (Suc idx) rest tg
      | Some m \<Rightarrow>
          (case expand_entry env self m target sfrom sto idx file_count of
             Inl e \<Rightarrow> (Some e, tg)
           | Inr move_to \<Rightarrow>
               scan_loop env self r target sfrom sto file_count (Suc idx) rest
                 (setdefault_append tg move_to entry)))"

text \<open>The two \<open>ValueError\<close>s of the sanity check, with the text of their f-strings.\<close>

definition collision_error :: "string \<Rightarrow> string list \<Rightarrow> error" where
  "collision_error target sources =
     ValueError (''Multiple files ('' @ py_join '', '' sources @ '') would be written to '' @ target)"

definition target_exists_error :: "string \<Rightarrow> string \<Rightarrow> error" where
  "target_exists_error target source =
     ValueError (''Target '' @ target @ '' already exists for source '' @ source)"

text \<open>The loop under \<open># sanity check\<close>.\<close>

fun sanity_check :: "'s environment \<Rightarrow> 's \<Rightarrow> targets_dict \<Rightarrow> error option" where
  "sanity_check env s [] = None"
| "sanity_check env s ((target, sources) # rest) =
     (if length sources > 1 then Some (collision_error target sources)
      else if path_exists env s target then
        (case sources of
           [] \<Rightarrow> Some (IndexError ''list index out of range'')
         | s0 # _ \<Rightarrow>
             (case is_same_file env s target s0 of
                Inl e \<Rightarrow> Some e
              | Inr same \<Rightarrow>
                  if \<not> same then Some (target_exists_error target s0)
                  else sanity_check env s rest))
      else sanity_check env s rest)"

text \<open>The three calls of copy mode, in order, stopping at the first that raises.\<close>

fun mutate_all :: "'s environment \<Rightarrow> fs_op list \<Rightarrow> 's world \<Rightarrow> error option \<times> 's world" where
  "mutate_all env [] w = (None, w)"
| "mutate_all env (op # ops) w =
     (case mutate env op w of
        (Some e, w') \<Rightarrow> (Some e, w')
      | (None, w') \<Rightarrow> mutate_all env ops w')"

text \<open>The loop under \<open># actual rename\<close>.\<close>

fun execute :: "'s environment \<Rightarrow> renamer \<Rightarrow> targets_dict \<Rightarrow> 's world \<Rightarrow> error option \<times> 's world" where
  "execute env self [] w = (None, w)"
| "execute env self ((target, sources) # rest) w =
     (case sources of
        [] \<Rightarrow> (Some (IndexError ''list index out of range''), w)
      | s0 # _ \<Rightarrow>
          if s0 = target then
            execute env self rest (if test self then print_err self (UnchangedNote s0) w else w)
          else if copy self then
            (if test self then execute env self rest (print_out self (WouldCopy s0 target) w)
             else
               (case mutate_all env
                       [ShutilCopy s0 target, ShutilCopymode s0 target, ShutilCopystat s0 target] w of
                  (Some e, w') \<Rightarrow> (Some e, w')
                | (None, w') \<Rightarrow> execute env self rest w'))
          else
            (if test self then execute env self rest (print_out self (WouldRename s0 target) w)
             else
               (case mutate env (OsRename s0 target) w of
                  (Some e, w') \<Rightarrow> (Some e, w')
                | (None, w') \<Rightarrow> execute env self rest w')))"

text \<open>
  \<open>Renamer._rename\<close>, in two definitions. \<open>compute_plan\<close> is the function up to the end
  of the scanning loop: it compiles the regex, prints the warnings, compiles the exclusion
  regex, lists the directory, drops the excluded entries and fills \<open>self.targets\<close>.
  \<open>renamer_rename\<close> is the whole function: the plan, the sanity check, the actual rename.
  The result is the exception raised, if any, the Renamer with its \<open>targets\<close> as the call
  left them, and the world.
\<close>

definition compile_except ::
  "'s environment \<Rightarrow> renamer \<Rightarrow> string option \<Rightarrow> error + (string \<Rightarrow> py_match option) option" where
  "compile_except env self except_regex =
     (case except_regex of
        None \<Rightarrow> Inr None
      | Some x \<Rightarrow>
          if x = [] then Inr None
          else (case re_compile env x (case_insensitive self) of
                  Inl e \<Rightarrow> Inl e
                | Inr exc \<Rightarrow> Inr (Some exc)))"

definition filter_files :: "(string \<Rightarrow> py_match option) option \<Rightarrow> string list \<Rightarrow> string list" where
  "filter_files exc listing =
     (case exc of None \<Rightarrow> listing | Some x \<Rightarrow> filter (\<lambda>f. x f = None) listing)"

definition compute_plan ::
  "'s environment \<Rightarrow> renamer \<Rightarrow> string \<Rightarrow> string option \<Rightarrow> string option \<Rightarrow> string option
     \<Rightarrow> string option \<Rightarrow> 's world \<Rightarrow> error option \<times> targets_dict \<times> 's world" where
  "compute_plan env self regex target except_regex substring_from substring_to w =
     (case re_compile env (''^'' @ regex @ ''$'') (case_insensitive self) of
        Inl e \<Rightarrow> (Some e, targets self, w)
      | Inr r \<Rightarrow>
          (let w1 = sep_warnings env self
                      [(''regex'', Some regex), (''target'', target),
                       (''except_regex'', except_regex), (''substring_from'', substring_from),
                       (''substring_to'', substring_to)] w
           in
           case compile_except env self except_regex of
             Inl e \<Rightarrow> (Some e, targets self, w1)
           | Inr exc \<Rightarrow>
               (case os_listdir env (fs w1) of
                  Inl e \<Rightarrow> (Some e, targets self, w1)
                | Inr listing \<Rightarrow>
                    (let files = filter_files exc listing;
                         file_count = length files
                     in
                     case scan_loop env self r target substring_from substring_to
                            file_count 0 files (targets self) of
                       (res, tg) \<Rightarrow> (res, tg, w1)))))"

definition renamer_rename ::
  "'s environment \<Rightarrow> renamer \<Rightarrow> string \<Rightarrow> string option \<Rightarrow> string option \<Rightarrow> string option
     \<Rightarrow> string option \<Rightarrow> 's world \<Rightarrow> error option \<times> renamer \<times> 's world" where
  "renamer_rename env self regex target except_regex substring_from substring_to w =
     (case compute_plan env self regex target except_regex substring_from substring_to w of
        (Some e, tg, w1) \<Rightarrow> (Some e, self\<lparr>targets := tg\<rparr>, w1)
      | (None, tg, w1) \<Rightarrow>
          (case sanity_check env (fs w1) tg of
             Some e \<Rightarrow> (Some e, self\<lparr>targets := tg\<rparr>, w1)
           | None \<Rightarrow>
               (case execute env self tg w1 of
                  (r2, w2) \<Rightarrow> (r2, self\<lparr>targets := tg\<rparr>, w2))))"

text \<open>
  \<open>rename_regex\<close> and \<open>rename_simple\<close>: a \<open>ValueError\<close> is printed and gives status 1, any
  other exception is printed and gives status 2. Opening and closing \<open>os.devnull\<close> is
  left out; quiet mode is the test in \<open>print_out\<close> and \<open>print_err\<close>.
\<close>

definition status_of ::
  "renamer \<Rightarrow> error option \<times> renamer \<times> 's world \<Rightarrow> int \<times> renamer \<times> 's world" where
  "status_of self res =
     (case res of
        (None, self', w) \<Rightarrow> (0, self', w)
      | (Some e, self', w) \<Rightarrow>
          (if is_ValueError e then 1 else 2, self', print_err self (ExcLine e) w))"

definition rename_regex ::
  "'s environment \<Rightarrow> renamer \<Rightarrow> string \<Rightarrow> string \<Rightarrow> string option \<Rightarrow> 's world
     \<Rightarrow> int \<times> renamer \<times> 's world" where
  "rename_regex env self regex target except_regex w =
     status_of self (renamer_rename env self regex (Some target) except_regex None None w)"

definition rename_simple ::
  "'s environment \<Rightarrow> renamer \<Rightarrow> string \<Rightarrow> string \<Rightarrow> string \<Rightarrow> string option \<Rightarrow> 's world
     \<Rightarrow> int \<times> renamer \<times> 's world" where
  "rename_simple env self regex substring_from substring_to except_regex w =
     status_of self
       (renamer_rename env self regex None except_regex (Some substring_from) (Some substring_to) w)"

section \<open>Notions the statements below use\<close>

text \<open>
  Left padding as the specification words it: the pad string is repeated in front of
  the text until the width is reached, and a text that is already as wide is kept whole.
  \<open>spec_render\<close> is the rendering the specification gives for an index: the absolute
  magnitude in base 10, left-padded.
\<close>

definition pad_left :: "string \<Rightarrow> int \<Rightarrow> string \<Rightarrow> string" where
  "pad_left pad width s = concat (replicate (nat (width - int (length s))) pad) @ s"


text \<open>
  The value of one reference \<open>\(ref)\<close> as the specification words it, with the
  corrections of claim C5: a \<open>ref\<close> that \<open>int\<close> accepts is that capture group, a
  \<open>ref\<close> that is \<open>index\<close> in lower case is the formatted, padded sequence value, and
  any other \<open>ref\<close> is the unknown-reference error. \<open>substitute_references\<close> puts
  these values in the place of the references of a text, one reference after the other,
  and stops at the first error.
\<close>

definition reference_value ::
  "'s environment \<Rightarrow> renamer \<Rightarrow> py_match \<Rightarrow> int \<Rightarrow> int \<Rightarrow> string \<Rightarrow> error + string" where
  "reference_value env self m idx file_count ref =
     (case py_int (int_max_str_digits env) ref of
        Some n \<Rightarrow>
          (case group m n of
             Inl e \<Rightarrow> Inl e
           | Inr None \<Rightarrow> Inl (TypeError ''replace() argument 2 must be str, not None'')
           | Inr (Some g) \<Rightarrow> Inr g)
      | None \<Rightarrow>
          if py_lower ref = ''index'' then index_replacement env self idx file_count
          else Inl (unknown_reference_error ref))"

fun substitute_references ::
  "(string \<Rightarrow> error + string) \<Rightarrow> string list \<Rightarrow> string \<Rightarrow> error + string" where
  "substitute_references val [] text = Inr text"
| "substitute_references val (ref # refs) text =
     (case val ref of
        Inl e \<Rightarrow> Inl e
      | Inr v \<Rightarrow>
          substitute_references val refs (py_replace ([BSLASH, LPAREN] @ ref @ [RPAREN]) v text))"

text \<open>The sources recorded in a plan for a destination (\<open>self.targets.get(d, [])\<close>).\<close>

definition sources_of :: "targets_dict \<Rightarrow> string \<Rightarrow> string list" where
  "sources_of tg d = (case map_of tg d of None \<Rightarrow> [] | Some vs \<Rightarrow> vs)"

text \<open>
  The lines a dry run prints on the output stream for a plan: one for each destination
  that differs from its source, naming the call that would run.
\<close>

fun would_run :: "renamer \<Rightarrow> targets_dict \<Rightarrow> message list" where
  "would_run self [] = []"
| "would_run self ((target, sources) # rest) =
     (case sources of
        [] \<Rightarrow> []
      | s0 # _ \<Rightarrow>
          if s0 = target then would_run self rest
          else (if copy self then WouldCopy s0 target else WouldRename s0 target)
                 # would_run self rest)"

section \<open>A concrete directory and library for the examples\<close>

text \<open>
  The examples run the model on a small stand-in for the operating system: a directory
  is the list of its entries with their inodes, in listing order. With \<open>cf = True\<close>
  names are looked up without regard to letter case, as on a case-preserving file system.
  An entry with inode 0 stands for a dangling symbolic link: it is listed, and \<open>os.stat\<close>
  raises on it. \<open>os.rename\<close> replaces an existing destination; \<open>shutil.copy\<close> gives a new
  file a new inode. \<open>dir_abspath\<close> is right for names without a path separator.
\<close>

type_synonym dir = "(string \<times> nat) list"

definition dir_key :: "bool \<Rightarrow> string \<Rightarrow> string" where
  "dir_key cf name = (if cf then py_lower name else name)"

definition dir_stat :: "bool \<Rightarrow> dir \<Rightarrow> string \<Rightarrow> nat option" where
  "dir_stat cf d p =
     (case map_of (map (\<lambda>(n, i). (dir_key cf n, i)) d) (dir_key cf p) of
        None \<Rightarrow> None
      | Some i \<Rightarrow> if i = 0 then None else Some i)"

definition dir_remove :: "bool \<Rightarrow> string \<Rightarrow> dir \<Rightarrow> dir" where
  "dir_remove cf p d = filter (\<lambda>(n, i). dir_key cf n \<noteq> dir_key cf p) d"

definition dir_apply :: "bool \<Rightarrow> fs_op \<Rightarrow> dir \<Rightarrow> error option \<times> dir" where
  "dir_apply cf op d =
     (case op of
        OsRename a b \<Rightarrow>
          (case dir_stat cf d a of
             None \<Rightarrow> (Some (OSError a), d)
           | Some i \<Rightarrow> (None, dir_remove cf b (dir_remove cf a d) @ [(b, i)]))
      | ShutilCopy a b \<Rightarrow>
          (case dir_stat cf d a of
             None \<Rightarrow> (Some (OSError a), d)
           | Some i \<Rightarrow>
               (case dir_stat cf d b of
                  Some j \<Rightarrow> (None, d)
                | None \<Rightarrow> (None, d @ [(b, Suc (foldr max (map snd d) 0))])))
      | ShutilCopymode a b \<Rightarrow>
          (if dir_stat cf d a = None then (Some (OSError a), d)
           else if dir_stat cf d b = None then (Some (OSError b), d) else (None, d))
      | ShutilCopystat a b \<Rightarrow>
          (if dir_stat cf d a = None then (Some (OSError a), d)
           else if dir_stat cf d b = None then (Some (OSError b), d) else (None, d)))"

definition dir_abspath :: "dir \<Rightarrow> string \<Rightarrow> string" where
  "dir_abspath d p = ''/tmp/'' @ p"

text \<open>
  A stand-in for \<open>re.compile\<close> that knows the patterns of the examples. In these patterns
  \<open>.\<close> does not match a newline and \<open>$\<close> also matches before a final newline, so the
  match is taken on the entry without its final newline.
\<close>

definition chomp :: "string \<Rightarrow> string" where
  "chomp e = (if e \<noteq> [] \<and> last e = CHR 0x0A then butlast e else e)"

definition one_line :: "string \<Rightarrow> bool" where
  "one_line b = (CHR 0x0A \<notin> set b)"

text \<open>\<open>^(.*)$\<close>, \<open>^.*$\<close> and \<open>^(.).$\<close>.\<close>

definition search_group_all :: "string \<Rightarrow> py_match option" where
  "search_group_all e =
     (if one_line (chomp e) then Some \<lparr>whole = chomp e, captures = [Some (chomp e)]\<rparr> else None)"

definition search_all :: "string \<Rightarrow> py_match option" where
  "search_all e = (if one_line (chomp e) then Some \<lparr>whole = chomp e, captures = []\<rparr> else None)"

definition search_first_of_two :: "string \<Rightarrow> py_match option" where
  "search_first_of_two e =
     (if one_line (chomp e) \<and> length (chomp e) = 2
      then Some \<lparr>whole = chomp e, captures = [Some (take 1 (chomp e))]\<rparr> else None)"

text \<open>\<open>^(a)?b$\<close>: the group takes no part in the match of \<open>b\<close>.\<close>

definition search_optional_group :: "bool \<Rightarrow> string \<Rightarrow> py_match option" where
  "search_optional_group ic e =
     (if (if ic then py_lower (chomp e) else chomp e) = ''ab''
      then Some \<lparr>whole = chomp e, captures = [Some (take 1 (chomp e))]\<rparr>
      else if (if ic then py_lower (chomp e) else chomp e) = ''b''
      then Some \<lparr>whole = chomp e, captures = [None]\<rparr>
      else None)"

text \<open>A pattern of ASCII letters and digits only, not anchored: the first occurrence.\<close>

fun search_literal :: "bool \<Rightarrow> string \<Rightarrow> string \<Rightarrow> py_match option" where
  "search_literal ic pat [] = (if pat = [] then Some \<lparr>whole = [], captures = []\<rparr> else None)"
| "search_literal ic pat (c # cs) =
     (if literal_match_at ic pat (c # cs)
      then Some \<lparr>whole = take (length pat) (c # cs), captures = []\<rparr>
      else search_literal ic pat cs)"

text \<open>\<open>^name$\<close> for a name of ASCII letters and digits: the whole entry is that name.\<close>

definition search_exact :: "bool \<Rightarrow> string \<Rightarrow> string \<Rightarrow> py_match option" where
  "search_exact ic name e =
     (if (if ic then py_lower (chomp e) = py_lower name else chomp e = name)
      then Some \<lparr>whole = chomp e, captures = []\<rparr> else None)"

definition is_anchored_name :: "string \<Rightarrow> bool" where
  "is_anchored_name pat =
     (3 \<le> length pat \<and> hd pat = CHR ''^'' \<and> last pat = CHR ''$''
      \<and> list_all (\<lambda>c. is_ascii_letter c \<or> is_digit c) (butlast (tl pat)))"

definition example_compile :: "string \<Rightarrow> bool \<Rightarrow> error + (string \<Rightarrow> py_match option)" where
  "example_compile pat ic =
     (if pat = ''^(.*)$'' then Inr search_group_all
      else if pat = ''^.*$'' then Inr search_all
      else if pat = ''^(.).$'' then Inr search_first_of_two
      else if pat = ''^(a)?b$'' then Inr (search_optional_group ic)
      else if is_anchored_name pat then Inr (search_exact ic (butlast (tl pat)))
      else if pat \<noteq> [] \<and> list_all (\<lambda>c. is_ascii_letter c \<or> is_digit c) pat
        then Inr (search_literal ic pat)
      else Inl (ReError ''pattern not among the examples''))"

text \<open>\<open>str.upper\<close> on strings without the characters U+00B5, U+00DF and U+00FF.\<close>

definition upper_char :: "char \<Rightarrow> char" where
  "upper_char c =
     (if (97 \<le> (of_char c :: nat) \<and> (of_char c :: nat) \<le> 122)
         \<or> (224 \<le> (of_char c :: nat) \<and> (of_char c :: nat) \<le> 254 \<and> (of_char c :: nat) \<noteq> 247)
      then char_of (of_char c - 32 :: nat) else c)"

definition example_upper :: "string \<Rightarrow> string" where
  "example_upper s = map upper_char s"

text \<open>\<open>int(math.log(x, 10))\<close> for \<open>1 \<le> x < 1000\<close>.\<close>

definition example_log10 :: "int \<Rightarrow> int" where
  "example_log10 x = (if x < 10 then 0 else if x < 100 then 1 else 2)"

definition example_env :: "bool \<Rightarrow> dir environment" where
  "example_env cf =
     \<lparr>re_compile = example_compile, math_log10 = example_log10, int_max_str_digits = 4300,
      str_upper = example_upper, os_sep = ''/'',
      os_listdir = (\<lambda>d. Inr (map fst d)), st_ino = dir_stat cf,
      abspath = dir_abspath, fs_apply = dir_apply cf\<rparr>"

definition start_world :: "dir \<Rightarrow> dir world" where
  "start_world d = \<lparr>fs = d, mutations = [], out_stream = [], err_stream = []\<rparr>"
section \<open>Frame lemmas: what the phases of a run leave alone\<close>

lemma print_err_frame [simp]:
  "fs (print_err self msg w) = fs w" "mutations (print_err self msg w) = mutations w"
  "out_stream (print_err self msg w) = out_stream w"
  by (simp_all add: print_err_def)

lemma print_out_frame [simp]:
  "fs (print_out self msg w) = fs w" "mutations (print_out self msg w) = mutations w"
  "err_stream (print_out self msg w) = err_stream w"
  "out_stream (print_out self msg w) = out_stream w @ (if quiet self then [] else [msg])"
  by (simp_all add: print_out_def)

lemma sep_warnings_frame [simp]:
  "fs (sep_warnings env self xs w) = fs w"
  "mutations (sep_warnings env self xs w) = mutations w"
  "out_stream (sep_warnings env self xs w) = out_stream w"
  by (induction env self xs w rule: sep_warnings.induct) (simp_all split: option.splits)

lemma compute_plan_frame:
  assumes "compute_plan env self regex target exc sf st w = (res, tg, w1)"
  shows "fs w1 = fs w \<and> mutations w1 = mutations w \<and> out_stream w1 = out_stream w"
  using assms
  by (auto simp: compute_plan_def Let_def simp del: sep_warnings.simps
        split: sum.splits prod.splits)

lemma execute_test_frame:
  assumes "test self" and "execute env self tg w = (res, w')"
  shows "fs w' = fs w \<and> mutations w' = mutations w"
  using assms
proof (induction tg arbitrary: w)
  case Nil
  then show ?case by simp
next
  case (Cons a tg)
  obtain t ss where a: "a = (t, ss)" by (cases a)
  show ?case
  proof (cases ss)
    case Nil
    with Cons.prems a show ?thesis by simp
  next
    case (Cons s0 more)
    with Cons.prems a Cons.IH show ?thesis
      by (auto split: if_splits)
  qed
qed

lemma execute_test_output:
  assumes "test self" and "execute env self tg w = (None, w')"
  shows "out_stream w' = out_stream w @ (if quiet self then [] else would_run self tg)"
  using assms
proof (induction tg arbitrary: w)
  case Nil
  then show ?case by simp
next
  case (Cons a tg)
  obtain t ss where a: "a = (t, ss)" by (cases a)
  show ?case
  proof (cases ss)
    case Nil
    with Cons.prems a show ?thesis by simp
  next
    case (Cons s0 more)
    with Cons.prems a Cons.IH show ?thesis
      by (auto split: if_splits)
  qed
qed

lemma renamer_rename_unfold:
  assumes "compute_plan env self regex target exc sf st w = (r0, tg, w1)"
  shows "renamer_rename env self regex target exc sf st w =
     (case r0 of
        Some e \<Rightarrow> (Some e, self\<lparr>targets := tg\<rparr>, w1)
      | None \<Rightarrow>
          (case sanity_check env (fs w) tg of
             Some e \<Rightarrow> (Some e, self\<lparr>targets := tg\<rparr>, w1)
           | None \<Rightarrow> (fst (execute env self tg w1), self\<lparr>targets := tg\<rparr>,
                        snd (execute env self tg w1))))"
  using assms compute_plan_frame [OF assms]
  by (simp add: renamer_rename_def split: option.splits prod.splits)

lemma sanity_check_None_iff:
  "sanity_check env s tg = None \<longleftrightarrow>
     (\<forall>(t, sources) \<in> set tg.
        length sources \<le> 1 \<and>
        (path_exists env s t \<longrightarrow>
           (\<exists>s0 more. sources = s0 # more \<and> is_same_file env s t s0 = Inr True)))"
proof (induction tg)
  case Nil
  then show ?case by simp
next
  case (Cons a tg)
  obtain t ss where a: "a = (t, ss)" by (cases a)
  show ?case
    using Cons.IH a
    by (cases ss) (auto split: sum.splits)
qed

lemma renamer_rename_test_frame:
  assumes "test self"
    and "renamer_rename env self regex target exc sf st w = (res, self', w')"
  shows "fs w' = fs w \<and> mutations w' = mutations w"
proof -
  obtain r0 tg w1 where cp: "compute_plan env self regex target exc sf st w = (r0, tg, w1)"
    by (cases "compute_plan env self regex target exc sf st w") auto
  have fr: "fs w1 = fs w \<and> mutations w1 = mutations w"
    using compute_plan_frame [OF cp] by simp
  show ?thesis
  proof (cases r0)
    case (Some e)
    with cp assms(2) fr show ?thesis by (simp add: renamer_rename_def)
  next
    case None
    show ?thesis
    proof (cases "sanity_check env (fs w1) tg")
      case (Some e)
      with None cp assms(2) fr show ?thesis by (simp add: renamer_rename_def)
    next
      case sc: None
      obtain r2 w2 where ex: "execute env self tg w1 = (r2, w2)"
        by (cases "execute env self tg w1") auto
      with None sc cp assms(2) have "w' = w2" by (simp add: renamer_rename_def)
      with execute_test_frame [OF assms(1) ex] fr show ?thesis by simp
    qed
  qed
qed


lemma renamer_rename_test_output:
  assumes "test self"
    and "renamer_rename env self regex target exc sf st w = (None, self', w')"
  shows "out_stream w' = out_stream w @ (if quiet self then [] else would_run self (targets self'))"
proof -
  obtain r0 tg w1 where cp: "compute_plan env self regex target exc sf st w = (r0, tg, w1)"
    by (cases "compute_plan env self regex target exc sf st w") auto
  have fr: "out_stream w1 = out_stream w"
    using compute_plan_frame [OF cp] by simp
  obtain r2 w2 where ex: "execute env self tg w1 = (r2, w2)"
    by (cases "execute env self tg w1") auto
  from renamer_rename_unfold [OF cp] assms(2) ex
  have "r2 = None \<and> w' = w2 \<and> targets self' = tg"
    by (auto split: option.splits)
  with execute_test_output [OF assms(1), of env tg w1 w2] ex fr show ?thesis
    by simp
qed


section \<open>Validation comes before every mutation\<close>

text \<open>
  Claim C1. Whatever \<open>Renamer._rename\<close> returns, if the file system was changed or a
  mutating call was made, then every entry of the plan had passed both checks on the
  file system as it was at the start: at most one source, and a destination that exists
  only when it is the same file as its source. And if the sanity check rejects the plan,
  the file system is as before and no mutating call was made, for any entry.
\<close>

theorem no_mutation_before_validation:
  assumes "renamer_rename env self regex target exc sf st w = (res, self', w')"
  shows "(fs w' \<noteq> fs w \<or> mutations w' \<noteq> mutations w \<longrightarrow>
            (\<forall>(t, sources) \<in> set (targets self').
               length sources \<le> 1 \<and>
               (path_exists env (fs w) t \<longrightarrow>
                  (\<exists>s0 more. sources = s0 # more \<and> is_same_file env (fs w) t s0 = Inr True))))
       \<and> (sanity_check env (fs w) (targets self') \<noteq> None \<longrightarrow>
            fs w' = fs w \<and> mutations w' = mutations w)"
proof -
  obtain r0 tg w1 where cp: "compute_plan env self regex target exc sf st w = (r0, tg, w1)"
    by (cases "compute_plan env self regex target exc sf st w") auto
  have fr: "fs w1 = fs w" "mutations w1 = mutations w"
    using compute_plan_frame [OF cp] by simp_all
  have run: "(res, self', w') =
     (case r0 of
        Some e \<Rightarrow> (Some e, self\<lparr>targets := tg\<rparr>, w1)
      | None \<Rightarrow>
          (case sanity_check env (fs w) tg of
             Some e \<Rightarrow> (Some e, self\<lparr>targets := tg\<rparr>, w1)
           | None \<Rightarrow> (fst (execute env self tg w1), self\<lparr>targets := tg\<rparr>,
                        snd (execute env self tg w1))))"
    using renamer_rename_unfold [OF cp] assms by simp
  have tg: "targets self' = tg"
    using run by (auto split: option.splits)
  have unchanged: "fs w' = fs w \<and> mutations w' = mutations w"
    if "r0 \<noteq> None \<or> sanity_check env (fs w) tg \<noteq> None"
    using that run fr by (auto split: option.splits)
  have second: "sanity_check env (fs w) (targets self') \<noteq> None \<longrightarrow>
            fs w' = fs w \<and> mutations w' = mutations w"
    using unchanged tg by blast
  have first: "fs w' \<noteq> fs w \<or> mutations w' \<noteq> mutations w \<longrightarrow>
            (\<forall>(t, sources) \<in> set (targets self').
               length sources \<le> 1 \<and>
               (path_exists env (fs w) t \<longrightarrow>
                  (\<exists>s0 more. sources = s0 # more \<and> is_same_file env (fs w) t s0 = Inr True)))"
  proof
    assume "fs w' \<noteq> fs w \<or> mutations w' \<noteq> mutations w"
    then have "sanity_check env (fs w) tg = None"
      using unchanged by blast
    then show "\<forall>(t, sources) \<in> set (targets self').
               length sources \<le> 1 \<and>
               (path_exists env (fs w) t \<longrightarrow>
                  (\<exists>s0 more. sources = s0 # more \<and> is_same_file env (fs w) t s0 = Inr True))"
      unfolding tg sanity_check_None_iff .
  qed
  from first second show ?thesis by (rule conjI)
qed


theorem no_mutation_before_validation_witness:
  "mutations \<lparr>fs = [(''b'', 1::nat)], mutations = [OsRename ''a'' ''b''], out_stream = [],
               err_stream = []\<rparr> \<noteq> mutations (start_world [(''a'', 1::nat)])
   \<and> sanity_check (example_env False) (fs (start_world [(''a'', 1)]))
        (targets (Renamer_init\<lparr>targets := [(''b'', [''a''])]\<rparr>)) = None
   \<and> sanity_check (example_env False) (fs (start_world [(''ab'', 1), (''ac'', 2)]))
        (targets (Renamer_init\<lparr>targets := [(''a'', [''ab'', ''ac''])]\<rparr>)) \<noteq> None
   \<and> fs \<lparr>fs = [(''ab'', 1::nat), (''ac'', 2)], mutations = [], out_stream = [],
        err_stream = []\<rparr>
       = fs (start_world [(''ab'', 1), (''ac'', 2)])
   \<and> mutations \<lparr>fs = [(''ab'', 1::nat), (''ac'', 2)], mutations = [], out_stream = [],
        err_stream = []\<rparr>
       = mutations (start_world [(''ab'', 1), (''ac'', 2)])"
proof -
  have a: "renamer_rename (example_env False) Renamer_init ''.*'' (Some ''b'') None None None
             (start_world [(''a'', 1)])
           = (None, Renamer_init\<lparr>targets := [(''b'', [''a''])]\<rparr>,
              \<lparr>fs = [(''b'', 1)], mutations = [OsRename ''a'' ''b''], out_stream = [],
               err_stream = []\<rparr>)"
    by code_simp
  have b: "renamer_rename (example_env False) Renamer_init ''(.).'' (Some [BSLASH, CHR ''1''])
             None None None (start_world [(''ab'', 1), (''ac'', 2)])
           = (Some (collision_error ''a'' [''ab'', ''ac'']),
              Renamer_init\<lparr>targets := [(''a'', [''ab'', ''ac''])]\<rparr>,
              \<lparr>fs = [(''ab'', 1), (''ac'', 2)], mutations = [], out_stream = [],
               err_stream = []\<rparr>)"
    by code_simp
  have m: "mutations \<lparr>fs = [(''b'', 1::nat)], mutations = [OsRename ''a'' ''b''], out_stream = [],
               err_stream = []\<rparr> \<noteq> mutations (start_world [(''a'', 1::nat)])"
    by code_simp
  then have ma: "fs \<lparr>fs = [(''b'', 1::nat)], mutations = [OsRename ''a'' ''b''], out_stream = [],
               err_stream = []\<rparr> \<noteq> fs (start_world [(''a'', 1::nat)])
     \<or> mutations \<lparr>fs = [(''b'', 1::nat)], mutations = [OsRename ''a'' ''b''], out_stream = [],
               err_stream = []\<rparr> \<noteq> mutations (start_world [(''a'', 1::nat)])"
    by (rule disjI2)
  from no_mutation_before_validation [OF a] ma
  have sa: "sanity_check (example_env False) (fs (start_world [(''a'', 1)]))
        (targets (Renamer_init\<lparr>targets := [(''b'', [''a''])]\<rparr>)) = None"
    unfolding sanity_check_None_iff by (elim conjE) (rule mp)
  have sb: "sanity_check (example_env False) (fs (start_world [(''ab'', 1), (''ac'', 2)]))
        (targets (Renamer_init\<lparr>targets := [(''a'', [''ab'', ''ac''])]\<rparr>)) \<noteq> None"
    by code_simp
  from no_mutation_before_validation [OF b] sb
  have ub: "fs \<lparr>fs = [(''ab'', 1::nat), (''ac'', 2)], mutations = [], out_stream = [],
        err_stream = []\<rparr>
       = fs (start_world [(''ab'', 1), (''ac'', 2)])
   \<and> mutations \<lparr>fs = [(''ab'', 1::nat), (''ac'', 2)], mutations = [], out_stream = [],
        err_stream = []\<rparr>
       = mutations (start_world [(''ab'', 1), (''ac'', 2)])"
    by (elim conjE) (rule mp)
  show ?thesis
    apply (rule conjI [OF m])
    apply (rule conjI [OF sa])
    apply (rule conjI [OF sb])
    apply (rule ub)
    done
qed


section \<open>Dry run\<close>

lemma status_of_dry_run:
  assumes "test self"
    and run: "status_of self (renamer_rename env self regex tgt exc sf st w) = (code, self', w')"
  shows "fs w' = fs w \<and> mutations w' = mutations w
         \<and> (code = 0 \<longrightarrow>
              out_stream w' = out_stream w
                @ (if quiet self then [] else would_run self (targets self')))"
proof -
  obtain res r1 w1 where rr: "renamer_rename env self regex tgt exc sf st w = (res, r1, w1)"
    by (cases "renamer_rename env self regex tgt exc sf st w") auto
  have fr: "fs w1 = fs w \<and> mutations w1 = mutations w"
    using renamer_rename_test_frame [OF assms(1) rr] .
  show ?thesis
  proof (cases res)
    case None
    with run rr have eq: "code = 0" "self' = r1" "w' = w1"
      by (simp_all add: status_of_def)
    from renamer_rename_test_output [OF assms(1), of env regex tgt exc sf st w r1 w1] rr None
    have "out_stream w1 = out_stream w @ (if quiet self then [] else would_run self (targets r1))"
      by simp
    with fr eq show ?thesis by simp
  next
    case (Some e)
    with run rr have eq: "code \<noteq> 0" "w' = print_err self (ExcLine e) w1"
      by (auto simp: status_of_def split: if_splits)
    with fr show ?thesis by simp
  qed
qed

text \<open>
  Claim C10. With \<open>test = True\<close>, \<open>rename_regex\<close> and \<open>rename_simple\<close> leave the file
  system as it was and make no mutating call (\<open>os.rename\<close>, \<open>shutil.copy\<close>,
  \<open>copymode\<close>, \<open>copystat\<close>), whatever status they return; and when the status is 0, what
  they add to the output stream is one line for each operation that would run (nothing
  when quiet).
\<close>

theorem dry_run_never_mutates:
  assumes "test self"
  shows "(case rename_regex env self regex target exc w of
            (code, self', w') \<Rightarrow>
              fs w' = fs w \<and> mutations w' = mutations w
              \<and> (code = 0 \<longrightarrow>
                   out_stream w' = out_stream w
                     @ (if quiet self then [] else would_run self (targets self'))))
       \<and> (case rename_simple env self regex substring_from substring_to exc w of
            (code, self', w') \<Rightarrow>
              fs w' = fs w \<and> mutations w' = mutations w
              \<and> (code = 0 \<longrightarrow>
                   out_stream w' = out_stream w
                     @ (if quiet self then [] else would_run self (targets self'))))"
proof (rule conjI)
  obtain code self' w' where r: "rename_regex env self regex target exc w = (code, self', w')"
    by (cases "rename_regex env self regex target exc w") auto
  then have "status_of self (renamer_rename env self regex (Some target) exc None None w)
               = (code, self', w')"
    by (simp add: rename_regex_def)
  from status_of_dry_run [OF assms this]
  show "case rename_regex env self regex target exc w of
            (code, self', w') \<Rightarrow>
              fs w' = fs w \<and> mutations w' = mutations w
              \<and> (code = 0 \<longrightarrow>
                   out_stream w' = out_stream w
                     @ (if quiet self then [] else would_run self (targets self')))"
    unfolding r prod.case .
next
  obtain code self' w' where r:
    "rename_simple env self regex substring_from substring_to exc w = (code, self', w')"
    by (cases "rename_simple env self regex substring_from substring_to exc w") auto
  then have "status_of self (renamer_rename env self regex None exc (Some substring_from)
               (Some substring_to) w) = (code, self', w')"
    by (simp add: rename_simple_def)
  from status_of_dry_run [OF assms this]
  show "case rename_simple env self regex substring_from substring_to exc w of
            (code, self', w') \<Rightarrow>
              fs w' = fs w \<and> mutations w' = mutations w
              \<and> (code = 0 \<longrightarrow>
                   out_stream w' = out_stream w
                     @ (if quiet self then [] else would_run self (targets self')))"
    unfolding r prod.case .
qed

theorem dry_run_never_mutates_witness:
  "test (Renamer_init\<lparr>test := True\<rparr>)
   \<and> rename_regex (example_env False) (Renamer_init\<lparr>test := True\<rparr>) ''.*'' ''b'' None
        (start_world [(''a'', 1)])
       = (0, Renamer_init\<lparr>test := True, targets := [(''b'', [''a''])]\<rparr>,
          \<lparr>fs = [(''a'', 1)], mutations = [], out_stream = [WouldRename ''a'' ''b''],
           err_stream = []\<rparr>)
   \<and> fs \<lparr>fs = [(''a'', 1::nat)], mutations = [], out_stream = [WouldRename ''a'' ''b''],
           err_stream = []\<rparr> = fs (start_world [(''a'', 1)])
   \<and> mutations \<lparr>fs = [(''a'', 1::nat)], mutations = [], out_stream = [WouldRename ''a'' ''b''],
           err_stream = []\<rparr> = mutations (start_world [(''a'', 1)])"
proof -
  have t: "test (Renamer_init\<lparr>test := True\<rparr>)"
    by code_simp
  have run: "rename_regex (example_env False) (Renamer_init\<lparr>test := True\<rparr>) ''.*'' ''b'' None
               (start_world [(''a'', 1)])
             = (0, Renamer_init\<lparr>test := True, targets := [(''b'', [''a''])]\<rparr>,
                \<lparr>fs = [(''a'', 1)], mutations = [], out_stream = [WouldRename ''a'' ''b''],
                 err_stream = []\<rparr>)"
    by code_simp
  from dry_run_never_mutates [OF t, where env = "example_env False" and regex = "''.*''"
         and target = "''b''" and exc = None and w = "start_world [(''a'', 1)]"]
  have "case rename_regex (example_env False) (Renamer_init\<lparr>test := True\<rparr>) ''.*'' ''b'' None
               (start_world [(''a'', 1)]) of
            (code, self', w') \<Rightarrow>
              fs w' = fs (start_world [(''a'', 1)])
              \<and> mutations w' = mutations (start_world [(''a'', 1)])
              \<and> (code = 0 \<longrightarrow>
                   out_stream w' = out_stream (start_world [(''a'', 1)])
                     @ (if quiet (Renamer_init\<lparr>test := True\<rparr>) then []
                        else would_run (Renamer_init\<lparr>test := True\<rparr>) (targets self')))"
    by (rule conjunct1)
  then have fr: "fs \<lparr>fs = [(''a'', 1::nat)], mutations = [], out_stream = [WouldRename ''a'' ''b''],
           err_stream = []\<rparr> = fs (start_world [(''a'', 1)])
     \<and> mutations \<lparr>fs = [(''a'', 1::nat)], mutations = [], out_stream = [WouldRename ''a'' ''b''],
           err_stream = []\<rparr> = mutations (start_world [(''a'', 1)])"
    unfolding run prod.case by (elim conjE) (rule conjI)
  show ?thesis
    apply (rule conjI [OF t])
    apply (rule conjI [OF run])
    apply (rule fr)
    done
qed


section \<open>Simple mode interprets the replacement string\<close>

text \<open>
  Claim C7. The claim has \<open>substring_to\<close> inserted as a literal string, backslash
  sequences kept as they are. \<open>_apply_replace\<close> escapes \<open>substring_from\<close> only and hands
  \<open>substring_to\<close> to \<open>Pattern.sub\<close> as a replacement template: with \<open>substring_from = "e"\<close>
  and \<open>substring_to\<close> the two characters backslash and \<open>n\<close>, the name \<open>CaSe1e\<close> becomes
  \<open>CaS\<close>, a newline, \<open>1\<close>, a newline, where the claim gives \<open>CaS\n1\n\<close> with the
  backslashes kept.
\<close>

theorem apply_replace_interprets_backslash:
  "apply_replace (example_env False) Renamer_init \<lparr>whole = ''CaSe1e'', captures = []\<rparr> ''e''
       [BSLASH, CHR ''n'']
     = Inr (''CaS'' @ [CHR 0x0A] @ ''1'' @ [CHR 0x0A])
   \<and> py_replace ''e'' [BSLASH, CHR ''n''] ''CaSe1e''
     = ''CaS'' @ [BSLASH, CHR ''n''] @ ''1'' @ [BSLASH, CHR ''n'']"
  by code_simp

section \<open>The plan outlives the batch\<close>

text \<open>
  Claim C9. The claim has every call of \<open>rename_regex\<close> start from an empty plan.
  \<open>self.targets\<close> is set to the empty dictionary in \<open>__init__\<close> only and \<open>_rename\<close> adds
  to it: in a directory that holds the one file \<open>a\<close>, the first \<open>rename_regex(".*",
  target="b")\<close> on a new Renamer renames \<open>a\<close> to \<open>b\<close> with status 0, and the same call
  again adds the source \<open>b\<close> to the sources \<open>[a]\<close> the first call left for the
  destination \<open>b\<close> and fails with status 1 on the collision.
\<close>

theorem second_run_collides_with_first:
  "(case rename_regex (example_env False) Renamer_init ''.*'' ''b'' None
           (start_world [(''a'', 1)]) of
      (code1, self1, w1) \<Rightarrow>
        (case rename_regex (example_env False) self1 ''.*'' ''b'' None w1 of
           (code2, self2, w2) \<Rightarrow>
             (code1, fs w1, targets self1, code2, targets self2, err_stream w2)))
   = (0, [(''b'', 1)], [(''b'', [''a''])], 1, [(''b'', [''a'', ''b''])],
      [ExcLine (collision_error ''b'' [''a'', ''b''])])"
  by code_simp

section \<open>The index and its rendering\<close>

text \<open>\<open>dec_nat\<close> gives the base-10 digits of a number.\<close>

lemma digit_val_digit_char: "d < 10 \<Longrightarrow> digit_val (digit_char d) = d"
  by (simp add: digit_val_def digit_char_def)

lemma is_digit_digit_char: "d < 10 \<Longrightarrow> is_digit (digit_char d)"
  by (simp add: is_digit_def digit_char_def)

lemma dec_nat_base10:
  "list_all is_digit (dec_nat n) \<and> foldl (\<lambda>a c. a * 10 + digit_val c) 0 (dec_nat n) = n"
proof (induction n rule: dec_nat.induct)
  case (1 n)
  show ?case
  proof (cases "n < 10")
    case True
    then show ?thesis
      by (subst (1 2) dec_nat.simps) (simp add: digit_val_digit_char is_digit_digit_char)
  next
    case False
    with 1 have ih: "list_all is_digit (dec_nat (n div 10))"
      "foldl (\<lambda>a c. a * 10 + digit_val c) 0 (dec_nat (n div 10)) = n div 10"
      by simp_all
    have m: "n mod 10 < 10" by simp
    from False ih show ?thesis
      by (subst (1 2) dec_nat.simps)
         (simp add: digit_val_digit_char [OF m] is_digit_digit_char [OF m])
  qed
qed


lemma index_replacement_pad_left:
  assumes "digit_width env self file_count = Inr width"
  shows "index_replacement env self n file_count
           = Inr (pad_left (index_pad_with self) width (fmt_d (index self n)))"
  using assms by (simp add: index_replacement_def Let_def pad_left_def)






section \<open>The references \<open>\(ref)\<close> of a template\<close>

lemma findall_MATCH_REGEX_no_backslash:
  "BSLASH \<notin> set s \<Longrightarrow> findall_MATCH_REGEX s = []"
  by (induction s) auto

lemma findall_MATCH_REGEX_skip:
  "BSLASH \<notin> set pre \<Longrightarrow> findall_MATCH_REGEX (pre @ s) = findall_MATCH_REGEX s"
  by (induction pre) auto

lemma not_digit_LPAREN: "\<not> is_digit LPAREN"
  by (simp add: is_digit_def)

lemma findall_MATCH_REGEX_one_bracket:
  assumes "BSLASH \<notin> set pre" and "BSLASH \<notin> set ref" and "BSLASH \<notin> set post"
  shows "findall_MATCH_REGEX (pre @ [BSLASH, LPAREN] @ ref @ [RPAREN] @ post) = []"
proof -
  have "BSLASH \<notin> set (LPAREN # ref @ [RPAREN] @ post)"
    using assms by simp
  then have "findall_MATCH_REGEX (LPAREN # ref @ [RPAREN] @ post) = []"
    by (rule findall_MATCH_REGEX_no_backslash)
  then have "findall_MATCH_REGEX ([BSLASH, LPAREN] @ ref @ [RPAREN] @ post) = []"
    by (simp add: not_digit_LPAREN)
  then show ?thesis
    using findall_MATCH_REGEX_skip [OF assms(1)] by simp
qed

lemma findall_MATCH_REGEX_BRACKETS_skip:
  "BSLASH \<notin> set pre \<Longrightarrow>
     findall_MATCH_REGEX_BRACKETS (pre @ s) = findall_MATCH_REGEX_BRACKETS s"
proof (induction pre)
  case Nil
  then show ?case by simp
next
  case (Cons c pre)
  then have c: "c \<noteq> BSLASH" and ih: "findall_MATCH_REGEX_BRACKETS (pre @ s)
                                         = findall_MATCH_REGEX_BRACKETS s"
    by auto
  show ?case
  proof (cases "pre @ s")
    case Nil
    then show ?thesis by simp
  next
    case (Cons d cs)
    have "findall_MATCH_REGEX_BRACKETS ((c # pre) @ s) = findall_MATCH_REGEX_BRACKETS (c # d # cs)"
      using Cons by simp
    also have "\<dots> = findall_MATCH_REGEX_BRACKETS (d # cs)"
      using c by simp
    also have "\<dots> = findall_MATCH_REGEX_BRACKETS s"
      using ih Cons by simp
    finally show ?thesis .
  qed
qed

lemma findall_MATCH_REGEX_BRACKETS_no_backslash:
  "BSLASH \<notin> set s \<Longrightarrow> findall_MATCH_REGEX_BRACKETS s = []"
  using findall_MATCH_REGEX_BRACKETS_skip [of s "[]"] by simp

lemma findall_MATCH_REGEX_BRACKETS_one:
  assumes "ref \<noteq> []" and "RPAREN \<notin> set ref"
    and "BSLASH \<notin> set pre" and "BSLASH \<notin> set post"
  shows "findall_MATCH_REGEX_BRACKETS (pre @ [BSLASH, LPAREN] @ ref @ [RPAREN] @ post)
           = [([BSLASH, LPAREN], ref, [RPAREN])]"
proof -
  have tw: "takeWhile (\<lambda>x. x \<noteq> RPAREN) (ref @ RPAREN # post) = ref"
    using assms(2) by (induction ref) auto
  have dw: "dropWhile (\<lambda>x. x \<noteq> RPAREN) (ref @ RPAREN # post) = RPAREN # post"
    using assms(2) by (induction ref) auto
  have "findall_MATCH_REGEX_BRACKETS ([BSLASH, LPAREN] @ ref @ [RPAREN] @ post)
          = [([BSLASH, LPAREN], ref, [RPAREN])]"
    using assms(1) findall_MATCH_REGEX_BRACKETS_no_backslash [OF assms(4)]
    by (simp add: tw dw)
  then show ?thesis
    using findall_MATCH_REGEX_BRACKETS_skip [OF assms(3)] by simp
qed

text \<open>Every reference that the scanner finds has the two delimiters around it.\<close>

lemma findall_MATCH_REGEX_BRACKETS_shape:
  "(p, ref, s) \<in> set (findall_MATCH_REGEX_BRACKETS t) \<Longrightarrow>
     p = [BSLASH, LPAREN] \<and> s = [RPAREN] \<and> ref \<noteq> [] \<and> RPAREN \<notin> set ref"
proof (induction t rule: findall_MATCH_REGEX_BRACKETS.induct)
  case 1
  then show ?case by simp
next
  case (2 c)
  then show ?case by simp
next
  case (3 c d cs)
  then show ?case
    by (auto split: if_splits dest: set_takeWhileD)
qed

lemma starts_with_append: "starts_with old (old @ s)"
  by (induction old) simp_all

lemma replace_nonempty_skip:
  "c0 \<notin> set pre \<Longrightarrow>
     replace_nonempty (c0 # r) new (pre @ s) = pre @ replace_nonempty (c0 # r) new s"
  by (induction pre) auto

lemma replace_nonempty_none:
  "c0 \<notin> set s \<Longrightarrow> replace_nonempty (c0 # r) new s = s"
  using replace_nonempty_skip [of c0 s r new "[]"] by simp

lemma replace_nonempty_here:
  "replace_nonempty (c0 # r) new ((c0 # r) @ s) = new @ replace_nonempty (c0 # r) new s"
  using starts_with_append [of r s] by simp

lemma py_replace_one_reference:
  assumes "BSLASH \<notin> set pre" and "BSLASH \<notin> set post"
  shows "py_replace ([BSLASH, LPAREN] @ ref @ [RPAREN]) v
           (pre @ [BSLASH, LPAREN] @ ref @ [RPAREN] @ post) = pre @ v @ post"
proof -
  let ?r = "LPAREN # ref @ [RPAREN]"
  have "replace_nonempty (BSLASH # ?r) v (pre @ (BSLASH # ?r) @ post)
          = pre @ replace_nonempty (BSLASH # ?r) v ((BSLASH # ?r) @ post)"
    by (rule replace_nonempty_skip [OF assms(1)])
  also have "\<dots> = pre @ v @ replace_nonempty (BSLASH # ?r) v post"
    by (simp only: replace_nonempty_here)
  also have "\<dots> = pre @ v @ post"
    by (simp only: replace_nonempty_none [OF assms(2)])
  finally show ?thesis
    by (simp add: py_replace_def)
qed

lemma bracket_step:
  "(case bracket_replacement env self m idx fc ref of
      Inl e \<Rightarrow> Inl e
    | Inr g \<Rightarrow> replace_with_group tok g mv)
   = (case reference_value env self m idx fc ref of
        Inl e \<Rightarrow> Inl e
      | Inr v \<Rightarrow> Inr (py_replace tok v mv))"
  by (simp add: bracket_replacement_def reference_value_def replace_with_group_def
        split: option.splits sum.splits)

lemma bracket_loop_refines:
  assumes "\<forall>(p, ref, s) \<in> set toks. p = [BSLASH, LPAREN] \<and> s = [RPAREN]"
  shows "bracket_loop env self m idx fc toks mv
           = substitute_references (reference_value env self m idx fc)
               (map (\<lambda>(p, ref, s). ref) toks) mv"
  using assms
proof (induction toks arbitrary: mv)
  case Nil
  then show ?case by simp
next
  case (Cons a toks)
  obtain p ref s where a: "a = (p, ref, s)" by (cases a)
  from Cons.prems a have ps: "p = [BSLASH, LPAREN]" "s = [RPAREN]"
    and rest: "\<forall>(p, ref, s) \<in> set toks. p = [BSLASH, LPAREN] \<and> s = [RPAREN]"
    by simp_all
  have step: "bracket_loop env self m idx fc (a # toks) mv =
      (case (case bracket_replacement env self m idx fc ref of
               Inl e \<Rightarrow> Inl e
             | Inr g \<Rightarrow> replace_with_group (p @ ref @ s) g mv) of
         Inl e \<Rightarrow> Inl e
       | Inr mv' \<Rightarrow> bracket_loop env self m idx fc toks mv')"
    by (simp add: a split: sum.splits)
  show ?case
    unfolding step bracket_step
    by (simp add: a ps Cons.IH [OF rest] split: sum.splits)
qed

lemma substitute_references_first_error:
  assumes "\<forall>r \<in> set refs1. \<exists>v. val r = Inr v" and "val ref = Inl e"
  shows "substitute_references val (refs1 @ ref # refs2) body = Inl e"
  using assms(1)
proof (induction refs1 arbitrary: body)
  case Nil
  with assms(2) show ?case by simp
next
  case (Cons r refs1)
  then obtain v where "val r = Inr v" by auto
  with Cons show ?case by simp
qed

lemma apply_match_refines:
  "apply_match env self m target idx fc =
     (case backref_loop env m (findall_MATCH_REGEX target) target of
        Inl e \<Rightarrow> Inl e
      | Inr body \<Rightarrow>
          (case substitute_references (reference_value env self m idx fc)
                  (map (\<lambda>(p, ref, s). ref) (findall_MATCH_REGEX_BRACKETS target)) body of
             Inl e \<Rightarrow> Inl e
           | Inr body' \<Rightarrow> apply_TRANSFORM env self body'))"
proof -
  have sh: "\<forall>(p, ref, s) \<in> set (findall_MATCH_REGEX_BRACKETS target).
          p = [BSLASH, LPAREN] \<and> s = [RPAREN]"
    using findall_MATCH_REGEX_BRACKETS_shape by blast
  show ?thesis
    unfolding apply_match_def bracket_loop_refines [OF sh] by (rule refl)
qed

lemma apply_match_one_reference:
  assumes "ref \<noteq> []" and "RPAREN \<notin> set ref" and "BSLASH \<notin> set ref"
    and "BSLASH \<notin> set pre" and "BSLASH \<notin> set post"
  shows "apply_match env self m (pre @ [BSLASH, LPAREN] @ ref @ [RPAREN] @ post) idx fc =
     (case reference_value env self m idx fc ref of
        Inl e \<Rightarrow> Inl e
      | Inr v \<Rightarrow> apply_TRANSFORM env self (pre @ v @ post))"
proof -
  define t where "t = pre @ [BSLASH, LPAREN] @ ref @ [RPAREN] @ post"
  have first: "backref_loop env m (findall_MATCH_REGEX t) t = Inr t"
    unfolding t_def
    by (simp only: findall_MATCH_REGEX_one_bracket [OF assms(4,3,5)] backref_loop.simps)
  have toks: "findall_MATCH_REGEX_BRACKETS t = [([BSLASH, LPAREN], ref, [RPAREN])]"
    unfolding t_def by (rule findall_MATCH_REGEX_BRACKETS_one [OF assms(1,2,4,5)])
  have repl: "py_replace (BSLASH # LPAREN # ref @ [RPAREN]) v t = pre @ v @ post" for v
    unfolding t_def using py_replace_one_reference [OF assms(4,5), of ref v] by simp
  have "apply_match env self m t idx fc =
     (case reference_value env self m idx fc ref of
        Inl e \<Rightarrow> Inl e
      | Inr v \<Rightarrow> apply_TRANSFORM env self (pre @ v @ post))"
    unfolding apply_match_refines [of env self m t] first toks
    by (simp add: repl split: sum.splits)
  then show ?thesis
    unfolding t_def .
qed

text \<open>
  Claim C5, as amended. \<open>_apply_match\<close> is the first loop over the references \<open>\N\<close>,
  then the references \<open>\(ref)\<close> of the template, taken one after the other in template
  order and each replaced in the text by its value, stopping at the first that raises,
  then the transform. The value of a reference is the capture group when \<open>int(ref)\<close>
  succeeds (an \<open>IndexError\<close> when there is no such group, a \<open>TypeError\<close> when the group
  took no part in the match); otherwise, when \<open>ref\<close> in lower case is \<open>index\<close>, whatever
  the case of its letters, it is the formatted, padded sequence value; any other \<open>ref\<close>
  raises the \<open>ValueError\<close> \<open>Unknown special reference\<close>. For a template with text
  around a single reference and no other backslash, the result is that text with the
  value in the place of the reference. When the references before an unknown one all
  have a value, the result is the error of the unknown one.
\<close>

theorem bracket_reference_expansion:
  "apply_match env self m target idx fc =
     (case backref_loop env m (findall_MATCH_REGEX target) target of
        Inl e \<Rightarrow> Inl e
      | Inr body \<Rightarrow>
          (case substitute_references (reference_value env self m idx fc)
                  (map (\<lambda>(p, ref, s). ref) (findall_MATCH_REGEX_BRACKETS target)) body of
             Inl e \<Rightarrow> Inl e
           | Inr body' \<Rightarrow> apply_TRANSFORM env self body'))
   \<and> (py_int (int_max_str_digits env) ref = Some n \<and> group m n = Inr (Some g) \<longrightarrow>
        reference_value env self m idx fc ref = Inr g)
   \<and> (py_int (int_max_str_digits env) ref = None \<and> py_lower ref = ''index'' \<longrightarrow>
        reference_value env self m idx fc ref = index_replacement env self idx fc)
   \<and> (py_int (int_max_str_digits env) ref = None \<and> py_lower ref \<noteq> ''index'' \<longrightarrow>
        reference_value env self m idx fc ref = Inl (unknown_reference_error ref))
   \<and> (ref \<noteq> [] \<and> RPAREN \<notin> set ref \<and> BSLASH \<notin> set ref
        \<and> BSLASH \<notin> set pre \<and> BSLASH \<notin> set post \<longrightarrow>
        apply_match env self m (pre @ [BSLASH, LPAREN] @ ref @ [RPAREN] @ post) idx fc =
          (case reference_value env self m idx fc ref of
             Inl e \<Rightarrow> Inl e
           | Inr v \<Rightarrow> apply_TRANSFORM env self (pre @ v @ post)))
   \<and> (backref_loop env m (findall_MATCH_REGEX target) target = Inr body
        \<and> findall_MATCH_REGEX_BRACKETS target = before @ (p, ref, s) # after
        \<and> (\<forall>(p', ref', s') \<in> set before. \<exists>v. reference_value env self m idx fc ref' = Inr v)
        \<and> py_int (int_max_str_digits env) ref = None \<and> py_lower ref \<noteq> ''index'' \<longrightarrow>
        apply_match env self m target idx fc = Inl (unknown_reference_error ref))"
proof (intro conjI impI)
  show "apply_match env self m target idx fc =
     (case backref_loop env m (findall_MATCH_REGEX target) target of
        Inl e \<Rightarrow> Inl e
      | Inr body \<Rightarrow>
          (case substitute_references (reference_value env self m idx fc)
                  (map (\<lambda>(p, ref, s). ref) (findall_MATCH_REGEX_BRACKETS target)) body of
             Inl e \<Rightarrow> Inl e
           | Inr body' \<Rightarrow> apply_TRANSFORM env self body'))"
    by (rule apply_match_refines)
next
  assume "py_int (int_max_str_digits env) ref = Some n \<and> group m n = Inr (Some g)"
  then show "reference_value env self m idx fc ref = Inr g"
    by (simp add: reference_value_def)
next
  assume "py_int (int_max_str_digits env) ref = None \<and> py_lower ref = ''index''"
  then show "reference_value env self m idx fc ref = index_replacement env self idx fc"
    by (simp add: reference_value_def)
next
  assume "py_int (int_max_str_digits env) ref = None \<and> py_lower ref \<noteq> ''index''"
  then show "reference_value env self m idx fc ref = Inl (unknown_reference_error ref)"
    by (simp add: reference_value_def)
next
  assume "ref \<noteq> [] \<and> RPAREN \<notin> set ref \<and> BSLASH \<notin> set ref
        \<and> BSLASH \<notin> set pre \<and> BSLASH \<notin> set post"
  then show "apply_match env self m (pre @ [BSLASH, LPAREN] @ ref @ [RPAREN] @ post) idx fc =
          (case reference_value env self m idx fc ref of
             Inl e \<Rightarrow> Inl e
           | Inr v \<Rightarrow> apply_TRANSFORM env self (pre @ v @ post))"
    using apply_match_one_reference by blast
next
  assume h: "backref_loop env m (findall_MATCH_REGEX target) target = Inr body
        \<and> findall_MATCH_REGEX_BRACKETS target = before @ (p, ref, s) # after
        \<and> (\<forall>(p', ref', s') \<in> set before. \<exists>v. reference_value env self m idx fc ref' = Inr v)
        \<and> py_int (int_max_str_digits env) ref = None \<and> py_lower ref \<noteq> ''index''"
  then have val: "reference_value env self m idx fc ref = Inl (unknown_reference_error ref)"
    by (simp add: reference_value_def)
  from h have ok: "\<forall>r \<in> set (map (\<lambda>(p, ref, s). ref) before).
                     \<exists>v. reference_value env self m idx fc r = Inr v"
    by auto
  have "substitute_references (reference_value env self m idx fc)
          (map (\<lambda>(p, ref, s). ref) (findall_MATCH_REGEX_BRACKETS target)) body
        = Inl (unknown_reference_error ref)"
    using substitute_references_first_error [OF ok val, of "map (\<lambda>(p, ref, s). ref) after" body] h
    by simp
  with h show "apply_match env self m target idx fc = Inl (unknown_reference_error ref)"
    by (simp add: apply_match_refines)
qed

theorem bracket_reference_expansion_witness:
  "apply_match (example_env False) Renamer_init \<lparr>whole = ''ab'', captures = [Some ''a'']\<rparr>
      (''C'' @ [BSLASH, LPAREN] @ ''index'' @ [RPAREN] @ ''x'') 3 61 =
     (case reference_value (example_env False) Renamer_init
             \<lparr>whole = ''ab'', captures = [Some ''a'']\<rparr> 3 61 ''index'' of
        Inl e \<Rightarrow> Inl e
      | Inr v \<Rightarrow> apply_TRANSFORM (example_env False) Renamer_init (''C'' @ v @ ''x''))
   \<and> reference_value (example_env False) Renamer_init
        \<lparr>whole = ''ab'', captures = [Some ''a'']\<rparr> 3 61 ''index'' = Inr ''04''
   \<and> apply_match (example_env False) Renamer_init \<lparr>whole = ''ab'', captures = [Some ''a'']\<rparr>
        (''C'' @ [BSLASH, LPAREN] @ ''index'' @ [RPAREN] @ ''x'') 3 61 = Inr ''C04x''
   \<and> findall_MATCH_REGEX_BRACKETS
        ([BSLASH, LPAREN] @ ''index'' @ [RPAREN] @ [BSLASH, LPAREN] @ ''foo'' @ [RPAREN])
       = [([BSLASH, LPAREN], ''index'', [RPAREN])] @ ([BSLASH, LPAREN], ''foo'', [RPAREN]) # []
   \<and> py_int (int_max_str_digits (example_env False)) ''foo'' = None
   \<and> py_lower ''foo'' \<noteq> ''index''
   \<and> apply_match (example_env False) Renamer_init \<lparr>whole = ''ab'', captures = [Some ''a'']\<rparr>
        ([BSLASH, LPAREN] @ ''index'' @ [RPAREN] @ [BSLASH, LPAREN] @ ''foo'' @ [RPAREN]) 3 61
       = Inl (unknown_reference_error ''foo'')
   \<and> py_int (int_max_str_digits (example_env False)) ''1'' = Some 1
   \<and> group \<lparr>whole = ''ab'', captures = [Some ''a'']\<rparr> 1 = Inr (Some ''a'')
   \<and> reference_value (example_env False) Renamer_init
        \<lparr>whole = ''ab'', captures = [Some ''a'']\<rparr> 3 61 ''1'' = Inr ''a''
   \<and> py_int (int_max_str_digits (example_env False)) ''Index'' = None
   \<and> py_lower ''Index'' = ''index''
   \<and> reference_value (example_env False) Renamer_init
        \<lparr>whole = ''ab'', captures = [Some ''a'']\<rparr> 3 61 ''Index''
       = index_replacement (example_env False) Renamer_init 3 61
   \<and> index_replacement (example_env False) Renamer_init 3 61 = Inr ''04''
   \<and> reference_value (example_env False) Renamer_init
        \<lparr>whole = ''ab'', captures = [Some ''a'']\<rparr> 3 61 ''foo''
       = Inl (unknown_reference_error ''foo'')"
proof -
  let ?E = "example_env False"
  let ?m = "\<lparr>whole = ''ab'', captures = [Some ''a'']\<rparr>"
  let ?t2 = "[BSLASH, LPAREN] @ ''index'' @ [RPAREN] @ [BSLASH, LPAREN] @ ''foo'' @ [RPAREN]"
  have h5: "''index'' \<noteq> [] \<and> RPAREN \<notin> set ''index'' \<and> BSLASH \<notin> set ''index''
        \<and> BSLASH \<notin> set ''C'' \<and> BSLASH \<notin> set ''x''"
    by simp
  note c5 = bracket_reference_expansion [where env = ?E and self = Renamer_init and m = ?m
      and idx = 3 and fc = 61 and ref = "''index''" and pre = "''C''" and post = "''x''",
      THEN conjunct2, THEN conjunct2, THEN conjunct2, THEN conjunct2, THEN conjunct1]
  from c5 h5 have one: "apply_match ?E Renamer_init ?m
      (''C'' @ [BSLASH, LPAREN] @ ''index'' @ [RPAREN] @ ''x'') 3 61 =
     (case reference_value ?E Renamer_init ?m 3 61 ''index'' of
        Inl e \<Rightarrow> Inl e
      | Inr v \<Rightarrow> apply_TRANSFORM ?E Renamer_init (''C'' @ v @ ''x''))"
    by (rule mp)
  have rv: "reference_value ?E Renamer_init ?m 3 61 ''index'' = Inr ''04''"
    by code_simp
  have ev: "apply_match ?E Renamer_init ?m
        (''C'' @ [BSLASH, LPAREN] @ ''index'' @ [RPAREN] @ ''x'') 3 61 = Inr ''C04x''"
    by code_simp
  have first: "backref_loop ?E ?m (findall_MATCH_REGEX ?t2) ?t2 = Inr ?t2"
    by code_simp
  have toks: "findall_MATCH_REGEX_BRACKETS ?t2
       = [([BSLASH, LPAREN], ''index'', [RPAREN])] @ ([BSLASH, LPAREN], ''foo'', [RPAREN]) # []"
    by code_simp
  have ok: "\<forall>(p', ref', s') \<in> set [([BSLASH, LPAREN], ''index'', [RPAREN])].
              \<exists>v. reference_value ?E Renamer_init ?m 3 61 ref' = Inr v"
    using rv by simp
  have ni: "py_int (int_max_str_digits ?E) ''foo'' = None"
    by code_simp
  have nl: "py_lower ''foo'' \<noteq> ''index''"
    by code_simp
  note c6 = bracket_reference_expansion [where env = ?E and self = Renamer_init and m = ?m
      and idx = 3 and fc = 61 and target = ?t2 and body = ?t2
      and before = "[([BSLASH, LPAREN], ''index'', [RPAREN])]"
      and p = "[BSLASH, LPAREN]" and ref = "''foo''" and s = "[RPAREN]" and after = "[]",
      THEN conjunct2, THEN conjunct2, THEN conjunct2, THEN conjunct2, THEN conjunct2]
  have h6: "backref_loop ?E ?m (findall_MATCH_REGEX ?t2) ?t2 = Inr ?t2
        \<and> findall_MATCH_REGEX_BRACKETS ?t2
            = [([BSLASH, LPAREN], ''index'', [RPAREN])] @ ([BSLASH, LPAREN], ''foo'', [RPAREN]) # []
        \<and> (\<forall>(p', ref', s') \<in> set [([BSLASH, LPAREN], ''index'', [RPAREN])].
              \<exists>v. reference_value ?E Renamer_init ?m 3 61 ref' = Inr v)
        \<and> py_int (int_max_str_digits ?E) ''foo'' = None \<and> py_lower ''foo'' \<noteq> ''index''"
    using first toks ok ni nl by blast
  from c6 h6 have two: "apply_match ?E Renamer_init ?m ?t2 3 61
                          = Inl (unknown_reference_error ''foo'')"
    by (rule mp)
  have p1: "py_int (int_max_str_digits ?E) ''1'' = Some 1"
    by code_simp
  have g1: "group ?m 1 = Inr (Some ''a'')"
    by code_simp
  have h2: "py_int (int_max_str_digits ?E) ''1'' = Some 1 \<and> group ?m 1 = Inr (Some ''a'')"
    using p1 g1 by (rule conjI)
  note c2 = bracket_reference_expansion [where env = ?E and self = Renamer_init and m = ?m
      and idx = 3 and fc = 61 and ref = "''1''" and n = 1 and g = "''a''",
      THEN conjunct2, THEN conjunct1]
  from c2 h2 have v1: "reference_value ?E Renamer_init ?m 3 61 ''1'' = Inr ''a''"
    by (rule mp)
  have pI: "py_int (int_max_str_digits ?E) ''Index'' = None"
    by code_simp
  have lI: "py_lower ''Index'' = ''index''"
    by code_simp
  have h3: "py_int (int_max_str_digits ?E) ''Index'' = None \<and> py_lower ''Index'' = ''index''"
    using pI lI by (rule conjI)
  note c3 = bracket_reference_expansion [where env = ?E and self = Renamer_init and m = ?m
      and idx = 3 and fc = 61 and ref = "''Index''",
      THEN conjunct2, THEN conjunct2, THEN conjunct1]
  from c3 h3 have vI: "reference_value ?E Renamer_init ?m 3 61 ''Index''
                         = index_replacement ?E Renamer_init 3 61"
    by (rule mp)
  have ir: "index_replacement ?E Renamer_init 3 61 = Inr ''04''"
    by code_simp
  have h4: "py_int (int_max_str_digits ?E) ''foo'' = None \<and> py_lower ''foo'' \<noteq> ''index''"
    using ni nl by (rule conjI)
  note c4 = bracket_reference_expansion [where env = ?E and self = Renamer_init and m = ?m
      and idx = 3 and fc = 61 and ref = "''foo''",
      THEN conjunct2, THEN conjunct2, THEN conjunct2, THEN conjunct1]
  from c4 h4 have vf: "reference_value ?E Renamer_init ?m 3 61 ''foo''
                         = Inl (unknown_reference_error ''foo'')"
    by (rule mp)
  show ?thesis
    apply (rule conjI [OF one])
    apply (rule conjI [OF rv])
    apply (rule conjI [OF ev])
    apply (rule conjI [OF toks])
    apply (rule conjI [OF ni])
    apply (rule conjI [OF nl])
    apply (rule conjI [OF two])
    apply (rule conjI [OF p1])
    apply (rule conjI [OF g1])
    apply (rule conjI [OF v1])
    apply (rule conjI [OF pI])
    apply (rule conjI [OF lI])
    apply (rule conjI [OF vI])
    apply (rule conjI [OF ir])
    apply (rule vf)
    done
qed

text \<open>
  The claim as stated fails for \<open>\(INDEX)\<close>: the program compares \<open>ref.lower()\<close> with
  \<open>index\<close>, so the token expands to the index instead of raising.
\<close>

theorem uppercase_INDEX_is_accepted:
  "apply_match (example_env False) Renamer_init \<lparr>whole = ''x'', captures = []\<rparr>
     ([BSLASH, LPAREN] @ ''INDEX'' @ [RPAREN]) 0 1 = Inr ''1''"
  by code_simp


section \<open>The scanning loop\<close>

lemma sources_of_setdefault_append:
  "sources_of (setdefault_append tg k v) d
     = (if d = k then sources_of tg d @ [v] else sources_of tg d)"
  by (induction tg) (auto simp: sources_of_def)

lemma scan_loop_sources:
  assumes "scan_loop env self r target sf st fc k files tg = (None, tg')"
  shows "sources_of tg' d = sources_of tg d @
           map snd (filter (\<lambda>(i, f). case r f of
                                         None \<Rightarrow> False
                                       | Some m \<Rightarrow> expand_entry env self m target sf st i fc = Inr d)
                      (enumerate k files))"
  using assms
proof (induction files arbitrary: k tg)
  case Nil
  then show ?case by simp
next
  case (Cons f files)
  show ?case
  proof (cases "r f")
    case None
    with Cons.prems have "scan_loop env self r target sf st fc (Suc k) files tg = (None, tg')"
      by simp
    from Cons.IH [OF this] None show ?thesis by simp
  next
    case (Some m)
    show ?thesis
    proof (cases "expand_entry env self m target sf st k fc")
      case (Inl e)
      with Some Cons.prems show ?thesis by simp
    next
      case (Inr move_to)
      with Some Cons.prems
      have "scan_loop env self r target sf st fc (Suc k) files (setdefault_append tg move_to f)
              = (None, tg')"
        by simp
      from Cons.IH [OF this] Some Inr show ?thesis
        by (auto simp: sources_of_setdefault_append)
    qed
  qed
qed

lemma scan_loop_expands:
  assumes "scan_loop env self r target sf st fc k files tg = (None, tg')"
  shows "\<forall>(i, f) \<in> set (enumerate k files). \<forall>m. r f = Some m \<longrightarrow>
           (\<exists>d. expand_entry env self m target sf st i fc = Inr d)"
  using assms
proof (induction files arbitrary: k tg)
  case Nil
  then show ?case by simp
next
  case (Cons f files)
  show ?case
  proof (cases "r f")
    case None
    with Cons.prems have "scan_loop env self r target sf st fc (Suc k) files tg = (None, tg')"
      by simp
    from Cons.IH [OF this] None show ?thesis by simp
  next
    case (Some m)
    show ?thesis
    proof (cases "expand_entry env self m target sf st k fc")
      case (Inl e)
      with Some Cons.prems show ?thesis by simp
    next
      case (Inr move_to)
      with Some Cons.prems
      have "scan_loop env self r target sf st fc (Suc k) files (setdefault_append tg move_to f)
              = (None, tg')"
        by simp
      from Cons.IH [OF this] Some Inr show ?thesis
        by simp
    qed
  qed
qed

lemma compute_plan_scan:
  assumes "re_compile env (''^'' @ regex @ ''$'') (case_insensitive self) = Inr r"
    and "compile_except env self exc = Inr ex"
    and "os_listdir env (fs w) = Inr listing"
  shows "compute_plan env self regex target exc sf st w =
           (fst (scan_loop env self r target sf st (length (filter_files ex listing)) 0
                   (filter_files ex listing) (targets self)),
            snd (scan_loop env self r target sf st (length (filter_files ex listing)) 0
                   (filter_files ex listing) (targets self)),
            sep_warnings env self
              [(''regex'', Some regex), (''target'', target), (''except_regex'', exc),
               (''substring_from'', sf), (''substring_to'', st)] w)"
  using assms
  by (simp add: compute_plan_def Let_def split: prod.splits del: sep_warnings.simps)

lemma py_int_index: "py_int lim ''index'' = None"
  by (simp add: py_int_def int_strip_def is_int_space_def parse_unsigned_def is_digit_def)

lemma py_lower_index: "py_lower ''index'' = ''index''"
  by code_simp

lemma reference_value_index:
  "reference_value env self m idx fc ''index'' = index_replacement env self idx fc"
  by (simp add: reference_value_def py_int_index py_lower_index)

lemma index_replacement_auto:
  assumes "index_digits self = StrDigits ''auto''"
  shows "index_replacement env self idx fc =
           (if index self fc \<le> 0 then Inl (ValueError ''math domain error'')
            else Inr (pad_left (index_pad_with self) (math_log10 env (index self fc) + 1)
                        (fmt_d (index self idx))))"
proof (cases "index self fc \<le> 0")
  case True
  with assms show ?thesis
    by (simp add: index_replacement_def digit_width_def Let_def)
next
  case False
  with assms have "digit_width env self fc = Inr (math_log10 env (index self fc) + 1)"
    by (simp add: digit_width_def)
  from index_replacement_pad_left [OF this] False show ?thesis
    by simp
qed

lemma expand_entry_index_auto:
  assumes "BSLASH \<notin> set pre" and "BSLASH \<notin> set post"
    and "index_digits self = StrDigits ''auto''"
  shows "expand_entry env self m (Some (pre @ [BSLASH, LPAREN] @ ''index'' @ [RPAREN] @ post))
           sf st i fc =
           (if index self (int fc) \<le> 0 then Inl (ValueError ''math domain error'')
            else apply_TRANSFORM env self
                   (pre @ pad_left (index_pad_with self) (math_log10 env (index self (int fc)) + 1)
                            (fmt_d (index self (int i))) @ post))"
proof -
  have a: "''index'' \<noteq> []" "RPAREN \<notin> set ''index''" "BSLASH \<notin> set ''index''"
    by simp_all
  show ?thesis
    unfolding expand_entry_def option.case
      apply_match_one_reference [OF a assms(1,2)] reference_value_index
      index_replacement_auto [OF assms(3)]
    by (simp split: sum.splits)
qed

text \<open>
  Claim C8. Let \<open>files\<close> be the listing without the entries that the exclusion regex
  matches, and let the plan be computed without an exception. The sources the plan
  records for a destination \<open>d\<close> are what the Renamer held before, followed by exactly
  those entries of \<open>files\<close>, in listing order, whose expansion is \<open>d\<close> when it is given
  the entry's 0-based position in \<open>files\<close> (entries that do not match the regex keep
  their position, excluded entries have none) and, as batch total, the length of
  \<open>files\<close>. For a template with text around one \<open>\(index)\<close> and automatic width this
  expansion is the text with, in the place of the reference, \<open>index(position)\<close> padded
  to the width \<open>int(math.log(index(len(files)), 10)) + 1\<close>: the width comes from the
  length of the filtered listing, whatever the number of entries that match the regex.
\<close>

theorem enumeration_after_exclusion:
  assumes "re_compile env (''^'' @ regex @ ''$'') (case_insensitive self) = Inr r"
    and "compile_except env self exc = Inr ex"
    and "os_listdir env (fs w) = Inr listing"
    and "compute_plan env self regex target exc sf st w = (None, plan, w1)"
    and "files = (case ex of None \<Rightarrow> listing | Some x \<Rightarrow> filter (\<lambda>f. x f = None) listing)"
  shows "sources_of plan d = sources_of (targets self) d @
           map snd (filter (\<lambda>(i, f). case r f of
                      None \<Rightarrow> False
                    | Some m \<Rightarrow> expand_entry env self m target sf st i (length files) = Inr d)
                    (enumerate 0 files))
       \<and> (target = Some (pre @ [BSLASH, LPAREN] @ ''index'' @ [RPAREN] @ post)
            \<and> BSLASH \<notin> set pre \<and> BSLASH \<notin> set post
            \<and> index_digits self = StrDigits ''auto'' \<longrightarrow>
          sources_of plan d = sources_of (targets self) d @
            map snd (filter (\<lambda>(i, f). r f \<noteq> None
                       \<and> apply_TRANSFORM env self
                            (pre @ pad_left (index_pad_with self)
                                     (math_log10 env (index self (int (length files))) + 1)
                                     (fmt_d (index self (int i))) @ post) = Inr d)
                     (enumerate 0 files)))"
proof -
  have ff: "filter_files ex listing = files"
    by (simp add: filter_files_def assms(5))
  from compute_plan_scan [OF assms(1-3), of target sf st] assms(4)
  have scan: "scan_loop env self r target sf st (length files) 0 files (targets self) = (None, plan)"
    by (simp add: prod_eq_iff ff)
  note first = scan_loop_sources [OF scan, of d]
  have second: "sources_of plan d = sources_of (targets self) d @
            map snd (filter (\<lambda>(i, f). r f \<noteq> None
                       \<and> apply_TRANSFORM env self
                            (pre @ pad_left (index_pad_with self)
                                     (math_log10 env (index self (int (length files))) + 1)
                                     (fmt_d (index self (int i))) @ post) = Inr d)
                     (enumerate 0 files))"
    if h: "target = Some (pre @ [BSLASH, LPAREN] @ ''index'' @ [RPAREN] @ post)
            \<and> BSLASH \<notin> set pre \<and> BSLASH \<notin> set post
            \<and> index_digits self = StrDigits ''auto''"
  proof -
    from h have tg: "target = Some (pre @ [BSLASH, LPAREN] @ ''index'' @ [RPAREN] @ post)"
      and np: "BSLASH \<notin> set pre" "BSLASH \<notin> set post"
      and au: "index_digits self = StrDigits ''auto''"
      by simp_all
    note ee = expand_entry_index_auto [OF np au, of env _ sf st _ "length files"]
    have same: "(case r f of None \<Rightarrow> False
                 | Some m \<Rightarrow> expand_entry env self m target sf st i (length files) = Inr d)
              = (r f \<noteq> None
                  \<and> apply_TRANSFORM env self
                       (pre @ pad_left (index_pad_with self)
                                (math_log10 env (index self (int (length files))) + 1)
                                (fmt_d (index self (int i))) @ post) = Inr d)"
      if mem: "(i, f) \<in> set (enumerate 0 files)" for i f
    proof (cases "r f")
      case None
      then show ?thesis by simp
    next
      case (Some m)
      from scan_loop_expands [OF scan] mem Some
      obtain d' where d': "expand_entry env self m target sf st i (length files) = Inr d'"
        by blast
      have pos: "\<not> index self (int (length files)) \<le> 0"
      proof
        assume "index self (int (length files)) \<le> 0"
        with d' ee [of m i] show False
          by (simp add: tg)
      qed
      with Some ee [of m i] show ?thesis
        by (simp add: tg)
    qed
    have "filter (\<lambda>(i, f). case r f of None \<Rightarrow> False
                 | Some m \<Rightarrow> expand_entry env self m target sf st i (length files) = Inr d)
            (enumerate 0 files)
        = filter (\<lambda>(i, f). r f \<noteq> None
                  \<and> apply_TRANSFORM env self
                       (pre @ pad_left (index_pad_with self)
                                (math_log10 env (index self (int (length files))) + 1)
                                (fmt_d (index self (int i))) @ post) = Inr d)
            (enumerate 0 files)"
      by (rule filter_cong [OF refl]) (use same in auto)
    with first show ?thesis
      by simp
  qed
  from first second show ?thesis
    by blast
qed

theorem enumeration_after_exclusion_witness:
  "re_compile (example_env False) (''^'' @ ''(.).'' @ ''$'') (case_insensitive Renamer_init)
     = Inr search_first_of_two
   \<and> compile_except (example_env False) Renamer_init (Some ''x'')
       = Inr (Some (search_literal False ''x''))
   \<and> os_listdir (example_env False)
        (fs (start_world [(''x1'', 1), (''aa'', 2), (''q'', 3), (''r'', 4), (''s'', 5), (''t'', 6),
                          (''u'', 7), (''v'', 8), (''w'', 9), (''y'', 10), (''bb'', 11)]))
       = Inr [''x1'', ''aa'', ''q'', ''r'', ''s'', ''t'', ''u'', ''v'', ''w'', ''y'', ''bb'']
   \<and> compute_plan (example_env False) Renamer_init ''(.).''
         (Some (''n'' @ [BSLASH, LPAREN] @ ''index'' @ [RPAREN] @ [])) (Some ''x'') None None
         (start_world [(''x1'', 1), (''aa'', 2), (''q'', 3), (''r'', 4), (''s'', 5), (''t'', 6),
                       (''u'', 7), (''v'', 8), (''w'', 9), (''y'', 10), (''bb'', 11)])
       = (None, [(''n01'', [''aa'']), (''n10'', [''bb''])],
          start_world [(''x1'', 1), (''aa'', 2), (''q'', 3), (''r'', 4), (''s'', 5), (''t'', 6),
                       (''u'', 7), (''v'', 8), (''w'', 9), (''y'', 10), (''bb'', 11)])
   \<and> [''aa'', ''q'', ''r'', ''s'', ''t'', ''u'', ''v'', ''w'', ''y'', ''bb'']
       = (case Some (search_literal False ''x'') of
            None \<Rightarrow> [''x1'', ''aa'', ''q'', ''r'', ''s'', ''t'', ''u'', ''v'', ''w'', ''y'', ''bb'']
          | Some x \<Rightarrow> filter (\<lambda>f. x f = None)
                       [''x1'', ''aa'', ''q'', ''r'', ''s'', ''t'', ''u'', ''v'', ''w'', ''y'', ''bb''])
   \<and> index_digits Renamer_init = StrDigits ''auto''
   \<and> sources_of [(''n01'', [''aa'']), (''n10'', [''bb''])] ''n01'' = [''aa'']
   \<and> sources_of [(''n01'', [''aa'']), (''n10'', [''bb''])] ''n10'' = [''bb'']
   \<and> length (filter (\<lambda>f. search_first_of_two f \<noteq> None)
        [''aa'', ''q'', ''r'', ''s'', ''t'', ''u'', ''v'', ''w'', ''y'', ''bb'']) = 2
   \<and> pad_left (index_pad_with Renamer_init)
        (math_log10 (example_env False) (index Renamer_init (int (length
           [''aa'', ''q'', ''r'', ''s'', ''t'', ''u'', ''v'', ''w'', ''y'', ''bb'']))) + 1)
        (fmt_d (index Renamer_init (int 0))) = ''01''"
proof -
  let ?E = "example_env False"
  let ?D = "[(''x1'', 1), (''aa'', 2), (''q'', 3), (''r'', 4), (''s'', 5), (''t'', 6),
             (''u'', 7), (''v'', 8), (''w'', 9), (''y'', 10), (''bb'', 11)] :: dir"
  let ?L = "[''x1'', ''aa'', ''q'', ''r'', ''s'', ''t'', ''u'', ''v'', ''w'', ''y'', ''bb'']"
  let ?F = "[''aa'', ''q'', ''r'', ''s'', ''t'', ''u'', ''v'', ''w'', ''y'', ''bb'']"
  let ?T = "''n'' @ [BSLASH, LPAREN] @ ''index'' @ [RPAREN] @ []"
  let ?P = "[(''n01'', [''aa'']), (''n10'', [''bb''])]"
  have c1: "re_compile ?E (''^'' @ ''(.).'' @ ''$'') (case_insensitive Renamer_init)
         = Inr search_first_of_two"
    by (simp add: example_env_def example_compile_def)
  have c2: "compile_except ?E Renamer_init (Some ''x'') = Inr (Some (search_literal False ''x''))"
    by (simp add: compile_except_def example_env_def example_compile_def Renamer_init_def
          is_ascii_letter_def is_digit_def is_anchored_name_def)
  have c3: "os_listdir ?E (fs (start_world ?D)) = Inr ?L"
    by (simp add: example_env_def start_world_def)
  have cp: "compute_plan ?E Renamer_init ''(.).'' (Some ?T) (Some ''x'') None None (start_world ?D)
       = (None, ?P, start_world ?D)"
    by code_simp
  have fl: "?F = (case Some (search_literal False ''x'') of
                    None \<Rightarrow> ?L
                  | Some x \<Rightarrow> filter (\<lambda>f. x f = None) ?L)"
    by code_simp
  have au: "index_digits Renamer_init = StrDigits ''auto''"
    by (simp add: Renamer_init_def)
  have h: "Some ?T = Some (''n'' @ [BSLASH, LPAREN] @ ''index'' @ [RPAREN] @ [])
            \<and> BSLASH \<notin> set ''n'' \<and> BSLASH \<notin> set []
            \<and> index_digits Renamer_init = StrDigits ''auto''"
    using au by simp
  note t1 = enumeration_after_exclusion [OF c1 c2 c3 cp fl, where d = "''n01''"
      and pre = "''n''" and post = "[]", THEN conjunct2]
  from t1 h have e1: "sources_of ?P ''n01'' = sources_of (targets Renamer_init) ''n01'' @
            map snd (filter (\<lambda>(i, f). search_first_of_two f \<noteq> None
                       \<and> apply_TRANSFORM ?E Renamer_init
                            (''n'' @ pad_left (index_pad_with Renamer_init)
                                     (math_log10 ?E (index Renamer_init (int (length ?F))) + 1)
                                     (fmt_d (index Renamer_init (int i))) @ []) = Inr ''n01'')
                     (enumerate 0 ?F))"
    by (rule mp)
  have s1: "sources_of ?P ''n01'' = [''aa'']"
    by (subst e1) code_simp
  note t2 = enumeration_after_exclusion [OF c1 c2 c3 cp fl, where d = "''n10''"
      and pre = "''n''" and post = "[]", THEN conjunct2]
  from t2 h have e2: "sources_of ?P ''n10'' = sources_of (targets Renamer_init) ''n10'' @
            map snd (filter (\<lambda>(i, f). search_first_of_two f \<noteq> None
                       \<and> apply_TRANSFORM ?E Renamer_init
                            (''n'' @ pad_left (index_pad_with Renamer_init)
                                     (math_log10 ?E (index Renamer_init (int (length ?F))) + 1)
                                     (fmt_d (index Renamer_init (int i))) @ []) = Inr ''n10'')
                     (enumerate 0 ?F))"
    by (rule mp)
  have s2: "sources_of ?P ''n10'' = [''bb'']"
    by (subst e2) code_simp
  have mc: "length (filter (\<lambda>f. search_first_of_two f \<noteq> None) ?F) = 2"
    by code_simp
  have pd: "pad_left (index_pad_with Renamer_init)
        (math_log10 ?E (index Renamer_init (int (length ?F))) + 1)
        (fmt_d (index Renamer_init (int 0))) = ''01''"
    by code_simp
  show ?thesis
    apply (rule conjI [OF c1])
    apply (rule conjI [OF c2])
    apply (rule conjI [OF c3])
    apply (rule conjI [OF cp])
    apply (rule conjI [OF fl])
    apply (rule conjI [OF au])
    apply (rule conjI [OF s1])
    apply (rule conjI [OF s2])
    apply (rule conjI [OF mc])
    apply (rule pd)
    done
qed


section \<open>A reference to a group the regex does not have\<close>

lemma findall_MATCH_REGEX_digits:
  "(p, num) \<in> set (findall_MATCH_REGEX t) \<Longrightarrow> num \<noteq> [] \<and> list_all is_digit num"
proof (induction t rule: findall_MATCH_REGEX.induct)
  case 1
  then show ?case by simp
next
  case (2 c cs)
  then show ?case
    by (auto simp: list_all_iff split: if_splits dest: set_takeWhileD)
qed

















section \<open>The sanity check\<close>

lemma two_in_filter_enumerate:
  assumes "i < j" and "j < length xs" and "P (i, xs ! i)" and "P (j, xs ! j)"
  shows "2 \<le> length (filter P (enumerate 0 xs))"
proof -
  let ?ys = "filter P (enumerate 0 xs)"
  have d: "distinct ?ys"
    by (simp add: distinct_enumerate)
  have "(i, xs ! i) \<in> set ?ys" "(j, xs ! j) \<in> set ?ys"
    using assms by (simp_all add: in_set_enumerate_eq)
  then have "{(i, xs ! i), (j, xs ! j)} \<subseteq> set ?ys"
    by simp
  then have "card {(i, xs ! i), (j, xs ! j)} \<le> card (set ?ys)"
    by (rule card_mono [OF finite_set])
  moreover have "card {(i, xs ! i), (j, xs ! j)} = 2"
    using assms(1) by simp
  ultimately show ?thesis
    using distinct_card [OF d] by simp
qed

lemma sources_of_in_plan:
  "sources_of tg d \<noteq> [] \<Longrightarrow> (d, sources_of tg d) \<in> set tg"
  by (auto simp: sources_of_def split: option.splits dest: map_of_SomeD)

lemma setdefault_append_sources:
  assumes "\<forall>(t, ss) \<in> set tg. ss \<noteq> [] \<and> set ss \<subseteq> A" and "v \<in> A"
  shows "\<forall>(t, ss) \<in> set (setdefault_append tg k v). ss \<noteq> [] \<and> set ss \<subseteq> A"
  using assms(1)
proof (induction tg)
  case Nil
  with assms(2) show ?case by simp
next
  case (Cons a tg)
  obtain t ss where a: "a = (t, ss)" by (cases a)
  from Cons.prems a have hd: "ss \<noteq> []" "set ss \<subseteq> A"
    and tl: "\<forall>(t, ss) \<in> set tg. ss \<noteq> [] \<and> set ss \<subseteq> A"
    by simp_all
  show ?case
  proof (cases "t = k")
    case True
    with a hd tl assms(2) show ?thesis by simp
  next
    case False
    with a hd Cons.IH [OF tl] show ?thesis by simp
  qed
qed

lemma scan_loop_plan_sources:
  assumes "scan_loop env self r target sf st fc k files tg = (res, tg')"
    and "\<forall>(t, ss) \<in> set tg. ss \<noteq> [] \<and> set ss \<subseteq> A" and "set files \<subseteq> A"
  shows "\<forall>(t, ss) \<in> set tg'. ss \<noteq> [] \<and> set ss \<subseteq> A"
  using assms
proof (induction files arbitrary: k tg)
  case Nil
  then show ?case by simp
next
  case (Cons f files)
  from Cons.prems(3) have fA: "f \<in> A" and rest: "set files \<subseteq> A" by simp_all
  show ?case
  proof (cases "r f")
    case None
    with Cons.prems(1) have "scan_loop env self r target sf st fc (Suc k) files tg = (res, tg')"
      by simp
    from Cons.IH [OF this Cons.prems(2) rest] show ?thesis .
  next
    case (Some m)
    show ?thesis
    proof (cases "expand_entry env self m target sf st k fc")
      case (Inl e)
      with Some Cons.prems(1) have "tg' = tg" by simp
      with Cons.prems(2) show ?thesis by simp
    next
      case (Inr mv)
      with Some Cons.prems(1)
      have "scan_loop env self r target sf st fc (Suc k) files (setdefault_append tg mv f)
              = (res, tg')"
        by simp
      from Cons.IH [OF this setdefault_append_sources [OF Cons.prems(2) fA] rest]
      show ?thesis .
    qed
  qed
qed

lemma is_same_file_total:
  assumes "st_ino env s t \<noteq> None" and "st_ino env s s0 \<noteq> None"
  shows "\<exists>b. is_same_file env s t s0 = Inr b"
  using assms by (auto simp: is_same_file_def)

lemma filter_files_subset: "set (filter_files ex listing) \<subseteq> set listing"
  by (auto simp: filter_files_def split: option.splits)

lemma status_of_code:
  "fst (status_of self (res, self', w')) =
     (case res of None \<Rightarrow> 0 | Some e \<Rightarrow> if is_ValueError e then 1 else 2)"
  by (simp add: status_of_def split: option.splits)

text \<open>
  The sanity check stops at the first destination of the plan, in insertion order, that
  fails one of its two checks: every destination before it has passed both.
\<close>

lemma sanity_check_first_failure:
  assumes "sanity_check env s tg = Some e"
    and "\<forall>(t, ss) \<in> set tg. ss \<noteq> [] \<and> st_ino env s (hd ss) \<noteq> None"
  shows "\<exists>pre t ss post. tg = pre @ (t, ss) # post
           \<and> sanity_check env s pre = None
           \<and> (e = collision_error t ss \<and> 1 < length ss
              \<or> (\<exists>s0. ss = [s0] \<and> path_exists env s t
                       \<and> is_same_file env s t s0 = Inr False
                       \<and> e = target_exists_error t s0))"
  using assms
proof (induction tg)
  case Nil
  then show ?case by simp
next
  case (Cons a tg)
  obtain t ss where a: "a = (t, ss)" by (cases a)
  from Cons.prems(2) a obtain s0 more where ss: "ss = s0 # more"
    and st: "st_ino env s s0 \<noteq> None"
    by (cases ss) auto
  from Cons.prems(2) have rest: "\<forall>(t, ss) \<in> set tg. ss \<noteq> [] \<and> st_ino env s (hd ss) \<noteq> None"
    by simp
  have here: ?case
    if "e = collision_error t ss \<and> 1 < length ss
        \<or> (\<exists>s0. ss = [s0] \<and> path_exists env s t
                 \<and> is_same_file env s t s0 = Inr False
                 \<and> e = target_exists_error t s0)"
  proof -
    have "a # tg = [] @ (t, ss) # tg \<and> sanity_check env s [] = None"
      by (simp add: a)
    with that show ?thesis by blast
  qed
  have later: ?case
    if pass: "sanity_check env s [a] = None" and e: "sanity_check env s tg = Some e"
  proof -
    from Cons.IH [OF e rest]
    obtain pre t' ss' post where p: "tg = pre @ (t', ss') # post"
      "sanity_check env s pre = None"
      "e = collision_error t' ss' \<and> 1 < length ss'
         \<or> (\<exists>s0. ss' = [s0] \<and> path_exists env s t'
                  \<and> is_same_file env s t' s0 = Inr False
                  \<and> e = target_exists_error t' s0)"
      by blast
    have "sanity_check env s (a # pre) = None"
      using pass p(2) unfolding sanity_check_None_iff by simp
    moreover have "a # tg = (a # pre) @ (t', ss') # post"
      using p(1) by simp
    ultimately show ?thesis
      using p(3) by blast
  qed
  show ?case
  proof (cases "1 < length ss")
    case True
    with Cons.prems(1) a have "e = collision_error t ss" by simp
    with True show ?thesis by (intro here) simp
  next
    case False
    with ss have more: "more = []" by simp
    show ?thesis
    proof (cases "path_exists env s t")
      case pe: True
      then obtain b where b: "is_same_file env s t s0 = Inr b"
        using is_same_file_total [OF _ st] by (auto simp: path_exists_def)
      show ?thesis
      proof (cases b)
        case True
        with Cons.prems(1) a ss more pe b have e: "sanity_check env s tg = Some e" by simp
        from a ss more pe b True have "sanity_check env s [a] = None" by simp
        from later [OF this e] show ?thesis .
      next
        case False
        with Cons.prems(1) a ss more pe b have "e = target_exists_error t s0" by simp
        with ss more pe b False show ?thesis by (intro here) simp
      qed
    next
      case pe: False
      with Cons.prems(1) a ss more have e: "sanity_check env s tg = Some e" by simp
      from a ss more pe have "sanity_check env s [a] = None" by simp
      from later [OF this e] show ?thesis .
    qed
  qed
qed

text \<open>
  Claim C2, as amended. Let two entries at different positions of the filtered listing
  match and expand to the same destination. Then \<open>_rename\<close> raises, the status that
  \<open>rename_regex\<close> and \<open>rename_simple\<close> make of it is not 0, the file system is as before
  and no mutating call was made. When moreover the Renamer held no plan, every matched
  entry expanded without an exception and every listed entry can be stat'ed, the status
  is 1 and the plan splits into the destinations that passed both checks, each with one
  source, then the first destination, in insertion order, that fails: the error is the
  collision error naming all the sources of that destination, or the target-exists
  error of that destination when it has a single source.
\<close>

theorem collision_aborts_batch:
  assumes c1: "re_compile env (''^'' @ regex @ ''$'') (case_insensitive self) = Inr r"
    and c2: "compile_except env self exc = Inr ex"
    and c3: "os_listdir env (fs w) = Inr listing"
    and ij: "i < j" "j < length (filter_files ex listing)"
    and mi: "r (filter_files ex listing ! i) = Some mi"
    and mj: "r (filter_files ex listing ! j) = Some mj"
    and di: "expand_entry env self mi target sf st i (length (filter_files ex listing)) = Inr d"
    and dj: "expand_entry env self mj target sf st j (length (filter_files ex listing)) = Inr d"
    and run: "renamer_rename env self regex target exc sf st w = (res, self', w')"
  shows "res \<noteq> None \<and> fst (status_of self (res, self', w')) \<noteq> 0
       \<and> fs w' = fs w \<and> mutations w' = mutations w
       \<and> (targets self = [] \<and> fst (compute_plan env self regex target exc sf st w) = None
            \<and> (\<forall>f \<in> set listing. st_ino env (fs w) f \<noteq> None)
          \<longrightarrow> fst (status_of self (res, self', w')) = 1
              \<and> (\<exists>pre t ss post. targets self' = pre @ (t, ss) # post
                   \<and> (\<forall>(t', ss') \<in> set pre.
                         \<exists>s0. ss' = [s0]
                           \<and> (path_exists env (fs w) t' \<longrightarrow>
                                is_same_file env (fs w) t' s0 = Inr True))
                   \<and> (res = Some (collision_error t ss) \<and> 1 < length ss
                      \<or> (\<exists>s0. ss = [s0] \<and> path_exists env (fs w) t
                               \<and> is_same_file env (fs w) t s0 = Inr False
                               \<and> res = Some (target_exists_error t s0)))))"
proof -
  let ?files = "filter_files ex listing"
  obtain e0 plan where sc: "scan_loop env self r target sf st (length ?files) 0 ?files
                              (targets self) = (e0, plan)"
    by (cases "scan_loop env self r target sf st (length ?files) 0 ?files (targets self)") auto
  obtain w1 where cp: "compute_plan env self regex target exc sf st w = (e0, plan, w1)"
    using compute_plan_scan [OF c1 c2 c3, of target sf st] sc by simp
  have fr: "fs w1 = fs w" "mutations w1 = mutations w"
    using compute_plan_frame [OF cp] by simp_all
  note rr = renamer_rename_unfold [OF cp]
  show ?thesis
  proof (cases e0)
    case (Some e)
    with rr run have "res = Some e" "w' = w1" by simp_all
    with fr cp Some show ?thesis
      by (simp add: status_of_code)
  next
    case None
    let ?P = "\<lambda>(k, f). case r f of
                None \<Rightarrow> False
              | Some m \<Rightarrow> expand_entry env self m target sf st k (length ?files) = Inr d"
    have src: "sources_of plan d
                 = sources_of (targets self) d @ map snd (filter ?P (enumerate 0 ?files))"
      using scan_loop_sources [of env self r target sf st "length ?files" 0 ?files
              "targets self" plan d] sc None
      by simp
    have "2 \<le> length (filter ?P (enumerate 0 ?files))"
      by (rule two_in_filter_enumerate [OF ij]) (simp_all add: mi mj di dj)
    with src have len: "2 \<le> length (sources_of plan d)"
      by simp
    then have "sources_of plan d \<noteq> []" by auto
    then have mem: "(d, sources_of plan d) \<in> set plan"
      by (rule sources_of_in_plan)
    have "sanity_check env (fs w) plan \<noteq> None"
    proof
      assume "sanity_check env (fs w) plan = None"
      then have "\<forall>(t, sources) \<in> set plan. length sources \<le> 1"
        unfolding sanity_check_None_iff by auto
      with mem len show False by auto
    qed
    then obtain e where e: "sanity_check env (fs w) plan = Some e"
      by auto
    with rr run None have res: "res = Some e" "w' = w1" "self' = self\<lparr>targets := plan\<rparr>"
      by simp_all
    have shape: "is_ValueError e
       \<and> (\<exists>pre t ss post. plan = pre @ (t, ss) # post
             \<and> (\<forall>(t', ss') \<in> set pre.
                   \<exists>s0. ss' = [s0]
                     \<and> (path_exists env (fs w) t' \<longrightarrow>
                          is_same_file env (fs w) t' s0 = Inr True))
             \<and> (e = collision_error t ss \<and> 1 < length ss
                \<or> (\<exists>s0. ss = [s0] \<and> path_exists env (fs w) t
                         \<and> is_same_file env (fs w) t s0 = Inr False
                         \<and> e = target_exists_error t s0)))"
      if fresh: "targets self = []" and stat: "\<forall>f \<in> set listing. st_ino env (fs w) f \<noteq> None"
    proof -
      have "\<forall>(t, ss) \<in> set (targets self). ss \<noteq> [] \<and> set ss \<subseteq> set listing"
        using fresh by simp
      from scan_loop_plan_sources [OF sc this filter_files_subset]
      have ne: "\<forall>(t, ss) \<in> set plan. ss \<noteq> [] \<and> set ss \<subseteq> set listing" .
      with stat have "\<forall>(t, ss) \<in> set plan. ss \<noteq> [] \<and> st_ino env (fs w) (hd ss) \<noteq> None"
        by (auto simp: subset_iff)
      from sanity_check_first_failure [OF e this]
      obtain pre t ss post where ts: "plan = pre @ (t, ss) # post"
        "sanity_check env (fs w) pre = None"
        "e = collision_error t ss \<and> 1 < length ss
           \<or> (\<exists>s0. ss = [s0] \<and> path_exists env (fs w) t
                    \<and> is_same_file env (fs w) t s0 = Inr False
                    \<and> e = target_exists_error t s0)"
        by blast
      have passed: "\<exists>s0. ss' = [s0]
                     \<and> (path_exists env (fs w) t' \<longrightarrow>
                          is_same_file env (fs w) t' s0 = Inr True)"
        if mem': "(t', ss') \<in> set pre" for t' ss'
      proof -
        from mem' ts(1) have "(t', ss') \<in> set plan" by simp
        with ne have "ss' \<noteq> []" by auto
        moreover from ts(2) mem' have "length ss' \<le> 1"
          and "path_exists env (fs w) t' \<longrightarrow>
                 (\<exists>s0 more. ss' = s0 # more \<and> is_same_file env (fs w) t' s0 = Inr True)"
          unfolding sanity_check_None_iff by auto
        ultimately show ?thesis
          by (cases ss') auto
      qed
      from ts(3) have "is_ValueError e"
        by (auto simp: collision_error_def target_exists_error_def)
      with ts(1,3) passed show ?thesis by blast
    qed
    from res fr shape show ?thesis
      by (simp add: status_of_code)
  qed
qed

theorem collision_aborts_batch_witness:
  "re_compile (example_env False) (''^'' @ ''(.).'' @ ''$'') (case_insensitive Renamer_init)
     = Inr search_first_of_two
   \<and> os_listdir (example_env False) (fs (start_world [(''xy'', 1), (''ab'', 2), (''ac'', 3)]))
       = Inr [''xy'', ''ab'', ''ac'']
   \<and> expand_entry (example_env False) Renamer_init \<lparr>whole = ''ab'', captures = [Some ''a'']\<rparr>
        (Some [BSLASH, CHR ''1'']) None None 1 (length (filter_files None [''xy'', ''ab'', ''ac'']))
       = Inr ''a''
   \<and> expand_entry (example_env False) Renamer_init \<lparr>whole = ''ac'', captures = [Some ''a'']\<rparr>
        (Some [BSLASH, CHR ''1'']) None None 2 (length (filter_files None [''xy'', ''ab'', ''ac'']))
       = Inr ''a''
   \<and> renamer_rename (example_env False) Renamer_init ''(.).'' (Some [BSLASH, CHR ''1''])
        None None None (start_world [(''xy'', 1), (''ab'', 2), (''ac'', 3)])
       = (Some (collision_error ''a'' [''ab'', ''ac'']),
          Renamer_init\<lparr>targets := [(''x'', [''xy'']), (''a'', [''ab'', ''ac''])]\<rparr>,
          \<lparr>fs = [(''xy'', 1), (''ab'', 2), (''ac'', 3)], mutations = [], out_stream = [],
           err_stream = []\<rparr>)
   \<and> fs \<lparr>fs = [(''xy'', 1::nat), (''ab'', 2), (''ac'', 3)], mutations = [], out_stream = [],
           err_stream = []\<rparr> = fs (start_world [(''xy'', 1), (''ab'', 2), (''ac'', 3)])
   \<and> mutations \<lparr>fs = [(''xy'', 1::nat), (''ab'', 2), (''ac'', 3)], mutations = [],
           out_stream = [], err_stream = []\<rparr>
       = mutations (start_world [(''xy'', 1), (''ab'', 2), (''ac'', 3)])
   \<and> targets Renamer_init = []
   \<and> fst (compute_plan (example_env False) Renamer_init ''(.).'' (Some [BSLASH, CHR ''1''])
            None None None (start_world [(''xy'', 1), (''ab'', 2), (''ac'', 3)])) = None
   \<and> fst (status_of Renamer_init
            (Some (collision_error ''a'' [''ab'', ''ac'']),
             Renamer_init\<lparr>targets := [(''x'', [''xy'']), (''a'', [''ab'', ''ac''])]\<rparr>,
             \<lparr>fs = [(''xy'', 1::nat), (''ab'', 2), (''ac'', 3)], mutations = [], out_stream = [],
              err_stream = []\<rparr>)) = 1
   \<and> (\<exists>pre t ss post.
         targets (Renamer_init\<lparr>targets := [(''x'', [''xy'']), (''a'', [''ab'', ''ac''])]\<rparr>)
           = pre @ (t, ss) # post
         \<and> (\<forall>(t', ss') \<in> set pre.
               \<exists>s0. ss' = [s0]
                 \<and> (path_exists (example_env False)
                        (fs (start_world [(''xy'', 1), (''ab'', 2), (''ac'', 3)])) t' \<longrightarrow>
                      is_same_file (example_env False)
                        (fs (start_world [(''xy'', 1), (''ab'', 2), (''ac'', 3)])) t' s0 = Inr True))
         \<and> (Some (collision_error ''a'' [''ab'', ''ac'']) = Some (collision_error t ss)
               \<and> 1 < length ss
            \<or> (\<exists>s0. ss = [s0]
                  \<and> path_exists (example_env False)
                      (fs (start_world [(''xy'', 1), (''ab'', 2), (''ac'', 3)])) t
                  \<and> is_same_file (example_env False)
                      (fs (start_world [(''xy'', 1), (''ab'', 2), (''ac'', 3)])) t s0 = Inr False
                  \<and> Some (collision_error ''a'' [''ab'', ''ac''])
                      = Some (target_exists_error t s0))))"
proof -
  let ?E = "example_env False"
  let ?W = "start_world [(''xy'', 1), (''ab'', 2), (''ac'', 3)]"
  let ?L = "[''xy'', ''ab'', ''ac'']"
  have c1: "re_compile ?E (''^'' @ ''(.).'' @ ''$'') (case_insensitive Renamer_init)
     = Inr search_first_of_two"
    by (simp add: example_env_def example_compile_def)
  have c2: "compile_except ?E Renamer_init None = Inr None"
    by (simp add: compile_except_def)
  have c3: "os_listdir ?E (fs ?W) = Inr ?L"
    by (simp add: example_env_def start_world_def)
  have i: "(1::nat) < 2" by simp
  have j: "2 < length (filter_files None ?L)"
    by (simp add: filter_files_def)
  have mi: "search_first_of_two (filter_files None ?L ! 1)
              = Some \<lparr>whole = ''ab'', captures = [Some ''a'']\<rparr>"
    by code_simp
  have mj: "search_first_of_two (filter_files None ?L ! 2)
              = Some \<lparr>whole = ''ac'', captures = [Some ''a'']\<rparr>"
    by code_simp
  have di: "expand_entry ?E Renamer_init \<lparr>whole = ''ab'', captures = [Some ''a'']\<rparr>
        (Some [BSLASH, CHR ''1'']) None None 1 (length (filter_files None ?L))
       = Inr ''a''"
    by code_simp
  have dj: "expand_entry ?E Renamer_init \<lparr>whole = ''ac'', captures = [Some ''a'']\<rparr>
        (Some [BSLASH, CHR ''1'']) None None 2 (length (filter_files None ?L))
       = Inr ''a''"
    by code_simp
  have run: "renamer_rename ?E Renamer_init ''(.).'' (Some [BSLASH, CHR ''1''])
        None None None ?W
       = (Some (collision_error ''a'' [''ab'', ''ac'']),
          Renamer_init\<lparr>targets := [(''x'', [''xy'']), (''a'', [''ab'', ''ac''])]\<rparr>,
          \<lparr>fs = [(''xy'', 1), (''ab'', 2), (''ac'', 3)], mutations = [], out_stream = [],
           err_stream = []\<rparr>)"
    by code_simp
  have fresh: "targets Renamer_init = []"
    by (simp add: Renamer_init_def)
  have noexc: "fst (compute_plan ?E Renamer_init ''(.).'' (Some [BSLASH, CHR ''1''])
            None None None ?W) = None"
    by code_simp
  have stat: "\<forall>f \<in> set ?L. st_ino ?E (fs ?W) f \<noteq> None"
    by code_simp
  have h: "targets Renamer_init = []
        \<and> fst (compute_plan ?E Renamer_init ''(.).'' (Some [BSLASH, CHR ''1''])
            None None None ?W) = None
        \<and> (\<forall>f \<in> set ?L. st_ino ?E (fs ?W) f \<noteq> None)"
    using fresh noexc stat by blast
  note t = collision_aborts_batch [OF c1 c2 c3 i j mi mj di dj run]
  note t3 = t [THEN conjunct2, THEN conjunct2, THEN conjunct1]
  note t4 = t [THEN conjunct2, THEN conjunct2, THEN conjunct2, THEN conjunct1]
  note t5 = mp [OF t [THEN conjunct2, THEN conjunct2, THEN conjunct2, THEN conjunct2] h]
  show ?thesis
    apply (rule conjI [OF c1])
    apply (rule conjI [OF c3])
    apply (rule conjI [OF di])
    apply (rule conjI [OF dj])
    apply (rule conjI [OF run])
    apply (rule conjI [OF t3])
    apply (rule conjI [OF t4])
    apply (rule conjI [OF fresh])
    apply (rule conjI [OF noexc])
    apply (rule t5)
    done
qed

text \<open>
  The claim as stated fails on the error that is reported: the sanity check is one loop
  over the plan that makes both checks for each destination in turn. In a directory
  with \<open>ab\<close>, \<open>a\<close>, \<open>c1\<close>, \<open>c2\<close>, the regex \<open>(.).\<close> and the template \<open>\1\<close>, the
  entries \<open>c1\<close> and \<open>c2\<close> both expand to \<open>c\<close>, but the destination \<open>a\<close> of \<open>ab\<close> comes
  first in the plan and exists: the error is \<open>Target a already exists for source ab\<close>,
  not the collision error.
\<close>

theorem earlier_target_exists_error_wins:
  "rename_regex (example_env False) Renamer_init ''(.).'' [BSLASH, CHR ''1''] None
     (start_world [(''ab'', 1), (''a'', 2), (''c1'', 3), (''c2'', 4)])
   = (1, Renamer_init\<lparr>targets := [(''a'', [''ab'']), (''c'', [''c1'', ''c2''])]\<rparr>,
      \<lparr>fs = [(''ab'', 1), (''a'', 2), (''c1'', 3), (''c2'', 4)], mutations = [],
       out_stream = [], err_stream = [ExcLine (target_exists_error ''a'' ''ab'')]\<rparr>)
   \<and> target_exists_error ''a'' ''ab'' \<noteq> collision_error ''c'' [''c1'', ''c2'']"
  by code_simp


section \<open>A destination that already exists\<close>






end
